theory Spec2Isabelle
  imports Complex_Main "HOL-Library.Log_Nat" "HOL-Library.AList"
begin

section \<open>Python values: exceptions and binary64 floats\<close>

text \<open>
  The two scripts \<^verbatim>\<open>code_test_3_base_on_code_2.py\<close> and \<^verbatim>\<open>Offline_simulation_code.py\<close>
  compute with Python's unbounded integers and with Python floats (IEEE 754 binary64,
  round to nearest, ties to even). Integers are modelled by \<^typ>\<open>int\<close>. A finite
  float is modelled by the rational number it denotes, and every float operation rounds
  its exact result with \<open>round_double\<close>. The two zeros are identified: no comparison of
  the source distinguishes them. An exception that the source does not catch is a
  value of \<open>py_error\<close>.
\<close>

datatype py_error = OverflowError | ParseError | ValueError

datatype pyfloat = Fin rat | PInf | NInf | NaN

definition pow2 :: "int \<Rightarrow> rat" where
  "pow2 k = (if 0 \<le> k then 2 ^ nat k else 1 / 2 ^ nat (- k))"

text \<open>The binary exponent \<open>\<lfloor>log\<^sub>2 x\<rfloor>\<close> of a positive rational.\<close>

definition binary_exponent :: "rat \<Rightarrow> int" where
  "binary_exponent x =
     (if 1 \<le> x then bitlen \<lfloor>x\<rfloor> - 1 else - bitlen (\<lceil>1 / x\<rceil> - 1))"

definition round_half_even :: "rat \<Rightarrow> int" where
  "round_half_even y =
     (let f = \<lfloor>y\<rfloor>; d = y - of_int f
      in if d < 1 / 2 then f
         else if 1 / 2 < d then f + 1
         else if even f then f else f + 1)"

text \<open>
  The spacing of binary64 numbers around \<open>x\<close>: 53 significant bits, and \<open>2\<^sup>-\<^sup>1\<^sup>0\<^sup>7\<^sup>4\<close> in the
  subnormal range.
\<close>

definition quantum :: "rat \<Rightarrow> rat" where
  "quantum x = pow2 (max (binary_exponent \<bar>x\<bar> - 52) (- 1074))"

definition round_double :: "rat \<Rightarrow> rat" where
  "round_double x =
     (if x = 0 then 0 else of_int (round_half_even (x / quantum x)) * quantum x)"

text \<open>
  A rounded result of magnitude \<open>2\<^sup>1\<^sup>0\<^sup>2\<^sup>4\<close> or more is an infinity; \<open>dbl_max\<close> is the largest
  finite binary64 number.
\<close>

definition to_pyfloat :: "rat \<Rightarrow> pyfloat" where
  "to_pyfloat r =
     (if 2 ^ 1024 \<le> r then PInf else if r \<le> - (2 ^ 1024) then NInf else Fin r)"

definition dbl_max :: int where
  "dbl_max = 2 ^ 1024 - 2 ^ 971"

text \<open>
  \<^verbatim>\<open>float(n)\<close> for an integer, as \<^verbatim>\<open>n / 1000.0\<close> performs it on its left operand:
  correctly rounded, and \<^verbatim>\<open>OverflowError\<close> when the integer is too large.
\<close>

definition float_of_int :: "int \<Rightarrow> py_error + rat" where
  "float_of_int n =
     (let r = round_double (of_int n)
      in if 2 ^ 1024 \<le> \<bar>r\<bar> then Inl OverflowError else Inr r)"

text \<open>Division of finite floats whose quotient stays finite (the divisors are constants \<open>\<ge> 10\<close>).\<close>

definition float_div :: "rat \<Rightarrow> rat \<Rightarrow> rat" where
  "float_div a b = round_double (a / b)"

text \<open>\<^verbatim>\<open>n / d\<close> for an integer \<open>n\<close> and a float constant \<open>d\<close>.\<close>

definition int_truediv :: "int \<Rightarrow> rat \<Rightarrow> py_error + rat" where
  "int_truediv n d =
     (case float_of_int n of Inl e \<Rightarrow> Inl e | Inr a \<Rightarrow> Inr (float_div a d))"

text \<open>C's \<^verbatim>\<open>fmod\<close>: exact, with the sign of the dividend.\<close>

definition c_fmod :: "rat \<Rightarrow> rat \<Rightarrow> rat" where
  "c_fmod x y =
     (let q = x / y; n = (if 0 \<le> q then \<lfloor>q\<rfloor> else \<lceil>q\<rceil>) in x - y * of_int n)"

text \<open>
  Python's float \<^verbatim>\<open>x % y\<close> for finite operands and a non-zero divisor (it is the literal
  \<^verbatim>\<open>60.0\<close> at every call): \<^verbatim>\<open>fmod\<close>, then the divisor is added, in floating point,
  when the remainder is non-zero and its sign differs from the divisor's.
\<close>

definition float_rem :: "rat \<Rightarrow> rat \<Rightarrow> rat" where
  "float_rem x y =
     (let m = c_fmod x y
      in if m \<noteq> 0 \<and> ((y < 0) \<noteq> (m < 0)) then round_double (m + y) else m)"

text \<open>Subtraction of finite floats whose difference stays finite.\<close>

definition float_sub :: "rat \<Rightarrow> rat \<Rightarrow> rat" where
  "float_sub a b = round_double (a - b)"

text \<open>Subtraction on all floats, as the countdown performs it.\<close>

fun pyfloat_sub :: "pyfloat \<Rightarrow> pyfloat \<Rightarrow> pyfloat" where
  "pyfloat_sub (Fin a) (Fin b) = to_pyfloat (float_sub a b)"
| "pyfloat_sub NaN _ = NaN"
| "pyfloat_sub _ NaN = NaN"
| "pyfloat_sub PInf PInf = NaN"
| "pyfloat_sub NInf NInf = NaN"
| "pyfloat_sub PInf _ = PInf"
| "pyfloat_sub NInf _ = NInf"
| "pyfloat_sub (Fin a) PInf = NInf"
| "pyfloat_sub (Fin a) NInf = PInf"

text \<open>\<^verbatim>\<open>a < b\<close> on floats; every comparison with a NaN is false.\<close>

fun pyfloat_less :: "pyfloat \<Rightarrow> pyfloat \<Rightarrow> bool" where
  "pyfloat_less (Fin a) (Fin b) = (a < b)"
| "pyfloat_less NaN _ = False"
| "pyfloat_less _ NaN = False"
| "pyfloat_less _ NInf = False"
| "pyfloat_less PInf _ = False"
| "pyfloat_less NInf _ = True"
| "pyfloat_less (Fin a) PInf = True"

text \<open>\<^verbatim>\<open>max(a, b)\<close>: the builtin keeps its first argument unless the second is greater.\<close>

definition py_max :: "pyfloat \<Rightarrow> pyfloat \<Rightarrow> pyfloat" where
  "py_max a b = (if pyfloat_less a b then b else a)"

section \<open>The time resolver\<close>

text \<open>
  \<^verbatim>\<open>detect_unit_and_delta\<close> is the same function in both scripts.
  \<^verbatim>\<open>min\<close> of a non-empty list of finite floats is \<open>Min\<close> of its elements, computed by a fold.
\<close>

definition primary_remaining :: "int \<Rightarrow> int \<Rightarrow> py_error + rat" where
  "primary_remaining now_val met_val =
     (case int_truediv now_val 1000 of Inl e \<Rightarrow> Inl e | Inr a \<Rightarrow>
      (case int_truediv met_val 10 of Inl e \<Rightarrow> Inl e | Inr b \<Rightarrow>
         (let now_sec = float_rem a 60; end_sec = float_rem b 60
          in Inr (float_rem (float_sub end_sec now_sec) 60))))"

fun fallback_candidates :: "int \<Rightarrow> int \<Rightarrow> (int \<times> rat) list \<Rightarrow> py_error + rat list" where
  "fallback_candidates now_val met_val [] = Inr []"
| "fallback_candidates now_val met_val ((modulo_v, scale) # ps) =
     (case int_truediv ((met_val - now_val) mod modulo_v) scale of Inl e \<Rightarrow> Inl e | Inr c \<Rightarrow>
      (case fallback_candidates now_val met_val ps of Inl e \<Rightarrow> Inl e | Inr cs \<Rightarrow> Inr (c # cs)))"

definition list_min :: "rat list \<Rightarrow> rat" where
  "list_min cs = fold min (tl cs) (hd cs)"

definition fallback_remaining :: "int \<Rightarrow> int \<Rightarrow> py_error + rat" where
  "fallback_remaining now_val met_val =
     (case fallback_candidates now_val met_val
             [(600, 10), (6000, 100), (60000, 1000), (65536, 1000)] of
        Inl e \<Rightarrow> Inl e
      | Inr candidates \<Rightarrow>
         (let small = filter (\<lambda>c. 0 \<le> c \<and> c \<le> 60) candidates
          in if small \<noteq> [] then Inr (list_min small)
             else Inr (float_rem (list_min candidates) 60)))"

definition detect_unit_and_delta :: "int option \<Rightarrow> int option \<Rightarrow> py_error + pyfloat option" where
  "detect_unit_and_delta now_val met_val =
     (case (now_val, met_val) of
        (Some n, Some m) \<Rightarrow>
          (case primary_remaining n m of Inl e \<Rightarrow> Inl e | Inr remaining \<Rightarrow>
             if 0 \<le> remaining \<and> remaining \<le> 60 then Inr (Some (Fin remaining))
             else (case fallback_remaining n m of Inl e \<Rightarrow> Inl e | Inr r \<Rightarrow> Inr (Some (Fin r))))
      | _ \<Rightarrow> Inr None)"

section \<open>Text and numbers in text\<close>

text \<open>
  Text is modelled as a list of characters with code points below 256.
  \<^verbatim>\<open>str.strip()\<close> removes the white space of \<^verbatim>\<open>str.isspace\<close> at both ends.
  \<^verbatim>\<open>str.isdigit()\<close> holds of a non-empty text of digit characters, which are the decimal
  digits and the superscript digits one, two and three (code points 185, 178, 179).
  \<^verbatim>\<open>int(s)\<close> reads an optional sign and decimal digits, single underscores allowed between
  digits, with white space around, which for \<^verbatim>\<open>int\<close> lacks the four separator characters
  28 to 31; it rejects a text of more than \<^verbatim>\<open>sys.get_int_max_str_digits()\<close> digits, 4300
  unless configured otherwise. \<open>None\<close> is its \<^verbatim>\<open>ValueError\<close>: \<^verbatim>\<open>parse_map\<close> and \<^verbatim>\<open>parse_spat\<close>
  catch it where they read identifiers and signal groups, \<^verbatim>\<open>num_in_node_or_kids\<close> does not.
\<close>

definition py_isspace :: "char \<Rightarrow> bool" where
  "py_isspace c = (of_char c \<in> {9, 10, 11, 12, 13, 28, 29, 30, 31, 32, 133, 160 :: nat})"

definition int_isspace :: "char \<Rightarrow> bool" where
  "int_isspace c = (of_char c \<in> {9, 10, 11, 12, 13, 32, 133, 160 :: nat})"

definition is_digit :: "char \<Rightarrow> bool" where
  "is_digit c = (48 \<le> (of_char c :: nat) \<and> (of_char c :: nat) \<le> 57)"

definition isdigit_char :: "char \<Rightarrow> bool" where
  "isdigit_char c = (is_digit c \<or> of_char c \<in> {178, 179, 185 :: nat})"

definition py_strip :: "string \<Rightarrow> string" where
  "py_strip s = rev (dropWhile py_isspace (rev (dropWhile py_isspace s)))"

definition py_isdigit :: "string \<Rightarrow> bool" where
  "py_isdigit s = (s \<noteq> [] \<and> list_all isdigit_char s)"

definition digits_value :: "string \<Rightarrow> int" where
  "digits_value s = foldl (\<lambda>acc c. 10 * acc + (int (of_char c) - 48)) 0 s"

fun underscores_ok :: "string \<Rightarrow> bool" where
  "underscores_ok [] = True"
| "underscores_ok [c] = is_digit c"
| "underscores_ok (c # d # r) =
     (if is_digit c then underscores_ok (d # r)
      else c = CHR ''_'' \<and> is_digit d \<and> underscores_ok (d # r))"

definition int_max_str_digits :: nat where
  "int_max_str_digits = 4300"

definition unsigned_literal :: "string \<Rightarrow> int option" where
  "unsigned_literal body =
     (let digits = filter (\<lambda>c. c \<noteq> CHR ''_'') body
      in if body \<noteq> [] \<and> is_digit (hd body) \<and> underscores_ok body \<and>
            length digits \<le> int_max_str_digits
         then Some (digits_value digits) else None)"

definition py_int :: "string \<Rightarrow> int option" where
  "py_int s =
     (case rev (dropWhile int_isspace (rev (dropWhile int_isspace s))) of
        [] \<Rightarrow> None
      | c # r \<Rightarrow>
          if c = CHR ''-'' then map_option uminus (unsigned_literal r)
          else if c = CHR ''+'' then unsigned_literal r
          else unsigned_literal (c # r))"

text \<open>\<^verbatim>\<open>a or b\<close> on optional texts: an absent or empty \<open>a\<close> gives \<open>b\<close>.\<close>

definition or_text :: "string option \<Rightarrow> string option \<Rightarrow> string option" where
  "or_text a b = (case a of Some s \<Rightarrow> if s \<noteq> [] then Some s else b | None \<Rightarrow> b)"

section \<open>Element trees and the XML helpers\<close>

text \<open>
  An element of \<^verbatim>\<open>xml.etree.ElementTree\<close>: its tag, its text (\<^verbatim>\<open>None\<close> when there is
  none) and its children in document order. The scripts read nothing else of an element.
  Turning the text of a block into such a tree (\<^verbatim>\<open>ET.fromstring\<close>) is the library's
  work; a block is therefore given by its parse result, \<open>None\<close> when the block is not
  well-formed (\<^verbatim>\<open>ET.ParseError\<close>).

  The paths the scripts use are sequences of two kinds of steps: \<^verbatim>\<open>tag\<close>, the children
  with that tag, and \<^verbatim>\<open>.//tag\<close>, the descendants with that tag in document order.
\<close>

datatype element = Element (el_tag: string) (el_text: "string option") (el_children: "element list")

datatype step = Child string | Desc string

fun descendants :: "element \<Rightarrow> element list" where
  "descendants (Element t x cs) = concat (map (\<lambda>c. c # descendants c) cs)"

fun select_step :: "element list \<Rightarrow> step \<Rightarrow> element list" where
  "select_step ctx (Child t) =
     concat (map (\<lambda>e. filter (\<lambda>c. el_tag c = t) (el_children e)) ctx)"
| "select_step ctx (Desc t) =
     concat (map (\<lambda>e. filter (\<lambda>c. el_tag c = t) (descendants e)) ctx)"

text \<open>\<^verbatim>\<open>el.findall(path) or []\<close> and \<^verbatim>\<open>el.find(path)\<close>.\<close>

definition findall :: "element \<Rightarrow> step list \<Rightarrow> element list" where
  "findall el path = foldl select_step [el] path"

definition find_el :: "element \<Rightarrow> step list \<Rightarrow> element option" where
  "find_el el path = (case findall el path of [] \<Rightarrow> None | x # _ \<Rightarrow> Some x)"

definition first :: "element \<Rightarrow> step list \<Rightarrow> string option" where
  "first el path = (case find_el el path of None \<Rightarrow> None | Some x \<Rightarrow> el_text x)"

text \<open>
  \<^verbatim>\<open>num_in_node_or_kids\<close> calls \<^verbatim>\<open>int\<close> on a text that \<^verbatim>\<open>isdigit\<close> accepts, outside any \<^verbatim>\<open>try\<close>:
  where \<^verbatim>\<open>int\<close> rejects the text (a superscript digit, or too many digits) the
  \<^verbatim>\<open>ValueError\<close> ends the run.
\<close>

definition digit_text :: "element \<Rightarrow> py_error + int option" where
  "digit_text node =
     (case el_text node of
        None \<Rightarrow> Inr None
      | Some t \<Rightarrow>
          if t \<noteq> [] \<and> py_isdigit (py_strip t)
          then (case py_int (py_strip t) of None \<Rightarrow> Inl ValueError | Some v \<Rightarrow> Inr (Some v))
          else Inr None)"

fun first_digit_text :: "element list \<Rightarrow> py_error + int option" where
  "first_digit_text [] = Inr None"
| "first_digit_text (sub # subs) =
     (case digit_text sub of
        Inl e \<Rightarrow> Inl e
      | Inr (Some v) \<Rightarrow> Inr (Some v)
      | Inr None \<Rightarrow> first_digit_text subs)"

definition num_in_node_or_kids :: "element option \<Rightarrow> py_error + int option" where
  "num_in_node_or_kids node =
     (case node of
        None \<Rightarrow> Inr None
      | Some n \<Rightarrow>
          (case digit_text n of
             Inl e \<Rightarrow> Inl e
           | Inr (Some v) \<Rightarrow> Inr (Some v)
           | Inr None \<Rightarrow> first_digit_text (descendants n)))"

fun num_at_any :: "element \<Rightarrow> step list list \<Rightarrow> py_error + int option" where
  "num_at_any el [] = Inr None"
| "num_at_any el (p # paths) =
     (case num_in_node_or_kids (find_el el p) of
        Inl e \<Rightarrow> Inl e
      | Inr (Some v) \<Rightarrow> Inr (Some v)
      | Inr None \<Rightarrow> num_at_any el paths)"

fun event2color :: "string option \<Rightarrow> string" where
  "event2color (Some ev) =
     (if ev = ''protected-Movement-Allowed'' then ''green''
      else if ev = ''permissive-Movement-Allowed'' then ''green''
      else if ev = ''protected-clearance'' then ''yellow''
      else if ev = ''permissive-clearance'' then ''yellow''
      else if ev = ''caution-Conflicting-Traffic'' then ''yellow''
      else if ev = ''stop-And-Remain'' then ''red''
      else if ev = ''stop-Then-Proceed'' then ''red''
      else if ev = ''dark'' then ''red''
      else ''red'')"
| "event2color None = ''red''"

section \<open>The geometry decoder\<close>

text \<open>
  \<^verbatim>\<open>parse_map\<close> is the same function in both scripts. The dictionary \<^verbatim>\<open>lanes\<close> is an
  association list in insertion order; a lane's entry \<^verbatim>\<open>{"sg": sg}\<close> is the optional
  signal group itself.
\<close>

fun scan_connections :: "element list \<Rightarrow> int option" where
  "scan_connections [] = None"
| "scan_connections (ct # cts) =
     (case first ct [Child ''signalGroup''] of
        None \<Rightarrow> scan_connections cts
      | Some sgt \<Rightarrow> if sgt \<noteq> [] then py_int sgt else scan_connections cts)"

fun parse_lanes :: "(int \<times> int option) list \<Rightarrow> element list \<Rightarrow> (int \<times> int option) list" where
  "parse_lanes lanes [] = lanes"
| "parse_lanes lanes (gl # gls) =
     (case first gl [Child ''laneID''] of
        None \<Rightarrow> parse_lanes lanes gls
      | Some lid_txt \<Rightarrow>
          if lid_txt = [] then parse_lanes lanes gls
          else (case py_int lid_txt of
                  None \<Rightarrow> parse_lanes lanes gls
                | Some lid \<Rightarrow>
                    parse_lanes
                      (AList.update lid
                         (scan_connections (findall gl [Child ''connectsTo'', Child ''Connection'']))
                         lanes)
                      gls))"

definition parse_map :: "element \<Rightarrow> string option \<times> string option \<times> (int \<times> int option) list" where
  "parse_map xml_root =
     (case find_el xml_root [Desc ''intersections'', Child ''IntersectionGeometry''] of
        None \<Rightarrow> (None, None, [])
      | Some ig \<Rightarrow>
          (or_text (first ig [Child ''id'', Child ''id'']) (first ig [Child ''id'']),
           or_text (first ig [Child ''name'']) (first ig [Child ''id'', Child ''name'']),
           parse_lanes [] (findall ig [Child ''laneSet'', Child ''GenericLane''])))"

section \<open>The phase decoder\<close>

text \<open>
  \<^verbatim>\<open>parse_spat\<close> and \<^verbatim>\<open>extract_now_value\<close> are the same in both scripts up to the list of
  time-stamp paths that \<^verbatim>\<open>extract_now_value\<close> tries, which is their parameter \<open>ts_paths\<close> here.
\<close>

definition ts_paths_rate_sync :: "step list list" where
  "ts_paths_rate_sync = [[Desc ''timeStamp''], [Desc ''msecOfMin''], [Desc ''dSecond'']]"

definition ts_paths_offline :: "step list list" where
  "ts_paths_offline =
     [[Desc ''timeStamp''], [Desc ''timeStamp'', Child ''msecOfMin''], [Desc ''msecOfMin''],
      [Desc ''timeStamp'', Child ''dSecond''], [Desc ''dSecond'']]"

definition extract_now_value :: "step list list \<Rightarrow> element \<Rightarrow> py_error + int option" where
  "extract_now_value ts_paths spat =
     (case num_at_any spat ts_paths of
        Inl e \<Rightarrow> Inl e
      | Inr ts \<Rightarrow>
          (case num_at_any spat [[Desc ''moy'']] of
             Inl e \<Rightarrow> Inl e
           | Inr moy \<Rightarrow>
               (let candidates =
                      (case ts of None \<Rightarrow> [] | Some v \<Rightarrow> [v]) @
                      (case moy of None \<Rightarrow> [] | Some v \<Rightarrow> [v])
                in Inr (if candidates = [] then None
                        else (case List.find (\<lambda>v. v \<le> 60000 \<or> v \<le> 6000 \<or> v \<le> 600) candidates of
                                Some v \<Rightarrow> Some v
                              | None \<Rightarrow> Some (hd candidates))))))"

definition read_event_state :: "element \<Rightarrow> string option" where
  "read_event_state ev_el =
     (case find_el ev_el [Child ''eventState''] of
        None \<Rightarrow> None
      | Some esn \<Rightarrow>
          (case el_children esn of
             kid # _ \<Rightarrow> Some (el_tag kid)
           | [] \<Rightarrow> (case el_text esn of
                      None \<Rightarrow> None
                    | Some t \<Rightarrow> if t \<noteq> [] then Some (py_strip t) else None)))"

fun read_min_end_tags :: "element \<Rightarrow> string list \<Rightarrow> py_error + int option" where
  "read_min_end_tags t [] = Inr None"
| "read_min_end_tags t (tg # tags) =
     (case num_at_any t [[Child tg]] of
        Inl e \<Rightarrow> Inl e
      | Inr (Some m) \<Rightarrow> Inr (Some m)
      | Inr None \<Rightarrow> read_min_end_tags t tags)"

fun read_min_end_parents :: "element \<Rightarrow> string list \<Rightarrow> py_error + int option" where
  "read_min_end_parents ev_el [] = Inr None"
| "read_min_end_parents ev_el (parent # parents) =
     (case find_el ev_el [Child parent] of
        None \<Rightarrow> read_min_end_parents ev_el parents
      | Some t \<Rightarrow>
          (case read_min_end_tags t [''likelyTime'', ''minEndTime'', ''maxEndTime'', ''endTime''] of
             Inl e \<Rightarrow> Inl e
           | Inr (Some m) \<Rightarrow> Inr (Some m)
           | Inr None \<Rightarrow> read_min_end_parents ev_el parents))"

definition read_min_end_any :: "element \<Rightarrow> py_error + int option" where
  "read_min_end_any ev_el = read_min_end_parents ev_el [''timing'', ''timeChangeDetails'']"

record observation =
  sg :: int
  event :: "string option"
  minEndRaw :: "int option"

fun choose_event :: "element list \<Rightarrow> py_error + (element \<times> int option) option" where
  "choose_event [] = Inr None"
| "choose_event (ev_el # evs) =
     (case read_min_end_any ev_el of
        Inl e \<Rightarrow> Inl e
      | Inr (Some m) \<Rightarrow> Inr (Some (ev_el, Some m))
      | Inr None \<Rightarrow> choose_event evs)"

definition movement_state :: "int \<Rightarrow> element \<Rightarrow> py_error + observation" where
  "movement_state sg_val ms =
     (let events = findall ms [Child ''state-time-speed'', Child ''MovementEvent'']
      in case (case choose_event events of
                 Inl e \<Rightarrow> Inl e
               | Inr (Some c) \<Rightarrow> Inr (Some c)
               | Inr None \<Rightarrow>
                   (case events of
                      [] \<Rightarrow> Inr None
                    | ev0 # _ \<Rightarrow>
                        (case read_min_end_any ev0 of
                           Inl e \<Rightarrow> Inl e
                         | Inr met \<Rightarrow> Inr (Some (ev0, met))))) of
           Inl e \<Rightarrow> Inl e
         | Inr None \<Rightarrow> Inr \<lparr>sg = sg_val, event = None, minEndRaw = None\<rparr>
         | Inr (Some (ev_el, met)) \<Rightarrow>
             Inr \<lparr>sg = sg_val, event = read_event_state ev_el, minEndRaw = met\<rparr>)"

fun parse_states :: "element list \<Rightarrow> py_error + observation list" where
  "parse_states [] = Inr []"
| "parse_states (ms # mss) =
     (case first ms [Child ''signalGroup''] of
        None \<Rightarrow> parse_states mss
      | Some sg_txt \<Rightarrow>
          if sg_txt = [] then parse_states mss
          else (case py_int sg_txt of
                  None \<Rightarrow> parse_states mss
                | Some sg_val \<Rightarrow>
                    (case movement_state sg_val ms of
                       Inl e \<Rightarrow> Inl e
                     | Inr ob \<Rightarrow>
                         (case parse_states mss of
                            Inl e \<Rightarrow> Inl e
                          | Inr obs \<Rightarrow> Inr (ob # obs)))))"

text \<open>\<^verbatim>\<open>a or b\<close> on optional elements: an element without children is false.\<close>

definition or_element :: "element option \<Rightarrow> element option \<Rightarrow> element option" where
  "or_element a b = (case a of Some e \<Rightarrow> if el_children e \<noteq> [] then Some e else b | None \<Rightarrow> b)"

definition parse_spat ::
  "step list list \<Rightarrow> element \<Rightarrow> py_error + (string option \<times> int option \<times> observation list)" where
  "parse_spat ts_paths spat_root =
     (case (if el_tag spat_root = ''SPAT'' then Some spat_root
            else or_element (find_el spat_root [Desc ''SPAT''])
                            (find_el spat_root [Desc ''value'', Child ''SPAT''])) of
        None \<Rightarrow> Inr (None, None, [])
      | Some spat \<Rightarrow>
          (case find_el spat [Desc ''intersections'', Child ''IntersectionState''] of
             None \<Rightarrow> Inr (None, None, [])
           | Some inter_el \<Rightarrow>
               (case extract_now_value ts_paths spat of
                  Inl e \<Rightarrow> Inl e
                | Inr now \<Rightarrow>
                    (case parse_states (findall inter_el [Child ''states'', Child ''MovementState'']) of
                       Inl e \<Rightarrow> Inl e
                     | Inr states \<Rightarrow>
                         Inr (or_text (first inter_el [Child ''id'', Child ''id''])
                                (first inter_el [Child ''id'']),
                              now, states)))))"

section \<open>The frame loop of \<^verbatim>\<open>code_test_3_base_on_code_2.py\<close>\<close>

text \<open>
  What \<^verbatim>\<open>main\<close> shows is a list of items: a printed message, a card drawn by
  \<^verbatim>\<open>draw_card\<close> (recorded with its arguments), and a pause that \<^verbatim>\<open>time.sleep\<close> accepted
  (recorded with its length). The command line is the record \<open>config\<close>; the log file
  enters as the parse results of its \<^verbatim>\<open>MapData\<close> and \<^verbatim>\<open>SPAT\<close> blocks.
\<close>

record config =
  lane :: int
  rate :: pyfloat
  sync_time :: bool
  no_clear :: bool

record card =
  approach_name :: "string option"
  inter_id :: "string option"
  lane_id :: int
  card_sg :: "int option"
  cur_color :: string
  secs_remaining :: "pyfloat option"
  clear_enabled :: bool

datatype message =
    NoMapData                     \<comment> \<open>\<^verbatim>\<open>No MapData found in file.\<close>\<close>
  | LaneNotFound int "int list"   \<comment> \<open>\<^verbatim>\<open>Lane ... not found in MAP. Known lanes: ...\<close>\<close>
  | NoSpat                        \<comment> \<open>\<^verbatim>\<open>No SPaT found in file.\<close>\<close>
  | NoneReferencedSignalGroup     \<comment> \<open>\<^verbatim>\<open>SPaT frames found, but none referenced your lane's signal group.\<close>\<close>

datatype shown_item = Print message | DrawCard card | Sleep pyfloat

record smoother_state =
  last_min_end :: "int option"
  simulated_rem :: "pyfloat option"
  last_ts :: "int option"
  shown :: nat

definition initial_state :: smoother_state where
  "initial_state = \<lparr>last_min_end = None, simulated_rem = None, last_ts = None, shown = 0\<rparr>"

text \<open>The body of the loop over \<^verbatim>\<open>states\<close> for the observation of the observer's signal group.\<close>

definition smooth_step ::
  "pyfloat \<Rightarrow> int option \<Rightarrow> smoother_state \<Rightarrow> observation \<Rightarrow> py_error + smoother_state" where
  "smooth_step rate_v now_val st ob =
     (case detect_unit_and_delta now_val (minEndRaw ob) of
        Inl e \<Rightarrow> Inl e
      | Inr rem_secs \<Rightarrow>
          (case (case simulated_rem st of
                   None \<Rightarrow> Inr rem_secs
                 | Some sim \<Rightarrow>
                     if minEndRaw ob = last_min_end st then
                       (case (last_ts st, now_val) of
                          (Some lt, Some nv) \<Rightarrow>
                            (case int_truediv (nv - lt) 10 of
                               Inl e \<Rightarrow> Inl e
                             | Inr dt \<Rightarrow> Inr (Some (py_max (Fin 0) (pyfloat_sub sim (Fin dt)))))
                        | _ \<Rightarrow> Inr (Some (py_max (Fin 0) (pyfloat_sub sim rate_v))))
                     else Inr rem_secs) of
             Inl e \<Rightarrow> Inl e
           | Inr new_rem \<Rightarrow>
               Inr (st\<lparr>simulated_rem := new_rem, last_min_end := minEndRaw ob\<rparr>)))"

fun scan_states ::
  "int option \<Rightarrow> pyfloat \<Rightarrow> int option \<Rightarrow> smoother_state \<Rightarrow> observation list
     \<Rightarrow> py_error + (string option \<times> smoother_state)" where
  "scan_states my_sg rate_v now_val st [] = Inr (None, st)"
| "scan_states my_sg rate_v now_val st (ob # obs) =
     (if Some (sg ob) = my_sg then
        (case smooth_step rate_v now_val st ob of
           Inl e \<Rightarrow> Inl e
         | Inr st' \<Rightarrow> Inr (event ob, st'))
      else scan_states my_sg rate_v now_val st obs)"

text \<open>The frame timing; \<^verbatim>\<open>0.01\<close> is the float nearest to one hundredth.\<close>

definition frame_delay :: "config \<Rightarrow> int option \<Rightarrow> int option \<Rightarrow> py_error + pyfloat" where
  "frame_delay cfg last_ts_v now_val =
     (case (sync_time cfg, last_ts_v, now_val) of
        (True, Some lt, Some nv) \<Rightarrow>
          (case int_truediv (nv - lt) 100 of
             Inl e \<Rightarrow> Inl e
           | Inr diff \<Rightarrow>
               Inr (if round_double (1 / 100) \<le> diff \<and> diff \<le> 5 then Fin diff else rate cfg))
      | _ \<Rightarrow> Inr (rate cfg))"

text \<open>
  \<^verbatim>\<open>time.sleep(secs)\<close> for a float: a NaN is a \<^verbatim>\<open>ValueError\<close>; otherwise the length is
  multiplied by \<open>10\<^sup>9\<close> in float arithmetic and rounded away from zero to whole
  nanoseconds, which must fit 64 bits (\<^verbatim>\<open>OverflowError\<close>) and must not be negative
  (\<^verbatim>\<open>ValueError\<close>). \<open>None\<close> is a pause that is taken.
\<close>

definition py_sleep :: "pyfloat \<Rightarrow> py_error option" where
  "py_sleep secs =
     (case secs of
        NaN \<Rightarrow> Some ValueError
      | PInf \<Rightarrow> Some OverflowError
      | NInf \<Rightarrow> Some OverflowError
      | Fin v \<Rightarrow>
          (let d = round_double (v * 10 ^ 9);
               ns = (if 0 \<le> d then \<lceil>d\<rceil> else \<lfloor>d\<rfloor>)
           in if \<not> (- (2 ^ 63) \<le> ns \<and> ns < 2 ^ 63) then Some OverflowError
              else if ns < 0 then Some ValueError
              else None))"

text \<open>The arguments of the call of \<^verbatim>\<open>draw_card\<close>.\<close>

definition frame_card ::
  "config \<Rightarrow> string option \<Rightarrow> string option \<Rightarrow> int option \<Rightarrow> string option \<Rightarrow> string option
     \<Rightarrow> pyfloat option \<Rightarrow> card" where
  "frame_card cfg inter_id_map inter_name_map my_sg inter_id_spat cur_event secs =
     \<lparr>approach_name = inter_name_map,
      inter_id = or_text inter_id_map inter_id_spat,
      lane_id = lane cfg,
      card_sg = my_sg,
      cur_color = event2color cur_event,
      secs_remaining = secs,
      clear_enabled = (\<not> no_clear cfg)\<rparr>"

text \<open>
  One iteration of the loop over the \<^verbatim>\<open>SPAT\<close> blocks: the state after it, what it shows,
  and the exception that ends the run, if one is raised.
\<close>

definition process_frame ::
  "config \<Rightarrow> string option \<Rightarrow> string option \<Rightarrow> int option \<Rightarrow> smoother_state \<Rightarrow> element option
     \<Rightarrow> smoother_state \<times> shown_item list \<times> py_error option" where
  "process_frame cfg inter_id_map inter_name_map my_sg st blob =
     (case blob of
        None \<Rightarrow> (st, [], None)
      | Some xml_root \<Rightarrow>
          (case parse_spat ts_paths_rate_sync xml_root of
             Inl e \<Rightarrow> (st, [], Some e)
           | Inr (inter_id_spat, now_val, states) \<Rightarrow>
               if states = [] then (st, [], None)
               else (case scan_states my_sg (rate cfg) now_val st states of
                       Inl e \<Rightarrow> (st, [], Some e)
                     | Inr (cur_event, st1) \<Rightarrow>
                         (let c = frame_card cfg inter_id_map inter_name_map my_sg
                                    inter_id_spat cur_event (simulated_rem st1)
                          in case frame_delay cfg (last_ts st1) now_val of
                               Inl e \<Rightarrow> (st1, [DrawCard c], Some e)
                             | Inr delay \<Rightarrow>
                                 (case py_sleep delay of
                                    Some e \<Rightarrow> (st1\<lparr>last_ts := now_val\<rparr>, [DrawCard c], Some e)
                                  | None \<Rightarrow>
                                      (st1\<lparr>last_ts := now_val, shown := shown st1 + 1\<rparr>,
                                       [DrawCard c, Sleep delay], None))))))"

fun frame_loop ::
  "config \<Rightarrow> string option \<Rightarrow> string option \<Rightarrow> int option \<Rightarrow> smoother_state \<Rightarrow> element option list
     \<Rightarrow> smoother_state \<times> shown_item list \<times> py_error option" where
  "frame_loop cfg inter_id_map inter_name_map my_sg st [] = (st, [], None)"
| "frame_loop cfg inter_id_map inter_name_map my_sg st (blob # blobs) =
     (case process_frame cfg inter_id_map inter_name_map my_sg st blob of
        (st', out, Some e) \<Rightarrow> (st', out, Some e)
      | (st', out, None) \<Rightarrow>
          (case frame_loop cfg inter_id_map inter_name_map my_sg st' blobs of
             (st'', out', r) \<Rightarrow> (st'', out @ out', r)))"

text \<open>
  \<^verbatim>\<open>main\<close> after the log file is read. The first \<^verbatim>\<open>MapData\<close> block is parsed outside any
  \<^verbatim>\<open>try\<close>, so a block that is not well-formed ends the run with \<^verbatim>\<open>ParseError\<close>.
\<close>

definition main :: "config \<Rightarrow> element option list \<Rightarrow> element option list \<Rightarrow> shown_item list \<times> py_error option" where
  "main cfg map_blocks spat_blocks =
     (case map_blocks of
        [] \<Rightarrow> ([Print NoMapData], None)
      | None # _ \<Rightarrow> ([], Some ParseError)
      | Some md # _ \<Rightarrow>
          (case parse_map md of
             (inter_id_map, inter_name_map, lane_info) \<Rightarrow>
               (case map_of lane_info (lane cfg) of
                  None \<Rightarrow> ([Print (LaneNotFound (lane cfg) (sort (map fst lane_info)))], None)
                | Some my_sg \<Rightarrow>
                    if spat_blocks = [] then ([Print NoSpat], None)
                    else (case frame_loop cfg inter_id_map inter_name_map my_sg initial_state spat_blocks of
                            (st, out, Some e) \<Rightarrow> (out, Some e)
                          | (st, out, None) \<Rightarrow>
                              (out @ (if shown st = 0 then [Print NoneReferencedSignalGroup] else []),
                               None)))))"

section \<open>The frame loop of \<^verbatim>\<open>Offline_simulation_code.py\<close>\<close>

text \<open>
  The offline script has no countdown state: it shows the resolver's estimate of each
  frame, counts the frame, and then pauses for \<^verbatim>\<open>max(0.05, args.rate)\<close>. Its \<^verbatim>\<open>draw_card\<close>
  always clears the screen.
\<close>

fun offline_scan_states ::
  "int option \<Rightarrow> int option \<Rightarrow> observation list \<Rightarrow> py_error + (string option \<times> pyfloat option)" where
  "offline_scan_states my_sg now_val [] = Inr (None, None)"
| "offline_scan_states my_sg now_val (ob # obs) =
     (if Some (sg ob) = my_sg then
        (case detect_unit_and_delta now_val (minEndRaw ob) of
           Inl e \<Rightarrow> Inl e
         | Inr rem_secs \<Rightarrow> Inr (event ob, rem_secs))
      else offline_scan_states my_sg now_val obs)"

definition offline_card ::
  "config \<Rightarrow> string option \<Rightarrow> string option \<Rightarrow> int option \<Rightarrow> string option \<Rightarrow> string option
     \<Rightarrow> pyfloat option \<Rightarrow> card" where
  "offline_card cfg inter_id_map inter_name_map my_sg inter_id_spat cur_event secs =
     \<lparr>approach_name = inter_name_map,
      inter_id = or_text inter_id_map inter_id_spat,
      lane_id = lane cfg,
      card_sg = my_sg,
      cur_color = event2color cur_event,
      secs_remaining = secs,
      clear_enabled = True\<rparr>"

definition offline_process_frame ::
  "config \<Rightarrow> string option \<Rightarrow> string option \<Rightarrow> int option \<Rightarrow> nat \<Rightarrow> element option
     \<Rightarrow> nat \<times> shown_item list \<times> py_error option" where
  "offline_process_frame cfg inter_id_map inter_name_map my_sg n blob =
     (case blob of
        None \<Rightarrow> (n, [], None)
      | Some xml_root \<Rightarrow>
          (case parse_spat ts_paths_offline xml_root of
             Inl e \<Rightarrow> (n, [], Some e)
           | Inr (inter_id_spat, now_val, states) \<Rightarrow>
               if states = [] then (n, [], None)
               else (case offline_scan_states my_sg now_val states of
                       Inl e \<Rightarrow> (n, [], Some e)
                     | Inr (cur_event, rem_secs) \<Rightarrow>
                         (let c = offline_card cfg inter_id_map inter_name_map my_sg
                                    inter_id_spat cur_event rem_secs;
                              delay = py_max (Fin (round_double (1 / 20))) (rate cfg)
                          in case py_sleep delay of
                               Some e \<Rightarrow> (n + 1, [DrawCard c], Some e)
                             | None \<Rightarrow> (n + 1, [DrawCard c, Sleep delay], None)))))"

fun offline_frame_loop ::
  "config \<Rightarrow> string option \<Rightarrow> string option \<Rightarrow> int option \<Rightarrow> nat \<Rightarrow> element option list
     \<Rightarrow> nat \<times> shown_item list \<times> py_error option" where
  "offline_frame_loop cfg inter_id_map inter_name_map my_sg n [] = (n, [], None)"
| "offline_frame_loop cfg inter_id_map inter_name_map my_sg n (blob # blobs) =
     (case offline_process_frame cfg inter_id_map inter_name_map my_sg n blob of
        (n', out, Some e) \<Rightarrow> (n', out, Some e)
      | (n', out, None) \<Rightarrow>
          (case offline_frame_loop cfg inter_id_map inter_name_map my_sg n' blobs of
             (n'', out', r) \<Rightarrow> (n'', out @ out', r)))"

definition offline_main ::
  "config \<Rightarrow> element option list \<Rightarrow> element option list \<Rightarrow> shown_item list \<times> py_error option" where
  "offline_main cfg map_blocks spat_blocks =
     (case map_blocks of
        [] \<Rightarrow> ([Print NoMapData], None)
      | None # _ \<Rightarrow> ([], Some ParseError)
      | Some md # _ \<Rightarrow>
          (case parse_map md of
             (inter_id_map, inter_name_map, lane_info) \<Rightarrow>
               (case map_of lane_info (lane cfg) of
                  None \<Rightarrow> ([Print (LaneNotFound (lane cfg) (sort (map fst lane_info)))], None)
                | Some my_sg \<Rightarrow>
                    if spat_blocks = [] then ([Print NoSpat], None)
                    else (case offline_frame_loop cfg inter_id_map inter_name_map my_sg 0 spat_blocks of
                            (n, out, Some e) \<Rightarrow> (out, Some e)
                          | (n, out, None) \<Rightarrow>
                              (out @ (if n = 0 then [Print NoneReferencedSignalGroup] else []),
                               None)))))"

section \<open>Predicates of the properties\<close>

text \<open>The first observation of a frame for the observer's signal group: the one the loop stops at.\<close>

definition observer_observation :: "int option \<Rightarrow> observation list \<Rightarrow> observation option" where
  "observer_observation my_sg states = List.find (\<lambda>ob. Some (sg ob) = my_sg) states"

text \<open>An optional counter is absent or non-negative.\<close>

definition nonneg_opt :: "int option \<Rightarrow> bool" where
  "nonneg_opt x = (case x of None \<Rightarrow> True | Some v \<Rightarrow> 0 \<le> v)"

text \<open>An optional countdown value is absent or a finite float between 0 and 60, both included.\<close>

definition in_range :: "pyfloat option \<Rightarrow> bool" where
  "in_range x = (case x of None \<Rightarrow> True | Some (Fin r) \<Rightarrow> 0 \<le> r \<and> r \<le> 60 | Some _ \<Rightarrow> False)"

text \<open>The device clock of a frame is not behind the stored one.\<close>

definition clock_not_behind :: "int option \<Rightarrow> int option \<Rightarrow> bool" where
  "clock_not_behind last_ts_v now_val =
     (case (last_ts_v, now_val) of (Some lt, Some nv) \<Rightarrow> lt \<le> nv | _ \<Rightarrow> True)"

text \<open>The nominal frame interval is a finite, non-negative float.\<close>

definition nominal_interval :: "pyfloat \<Rightarrow> bool" where
  "nominal_interval r = (case r of Fin x \<Rightarrow> 0 \<le> x | _ \<Rightarrow> False)"

text \<open>Every card among the items shown is red and carries no seconds.\<close>

definition red_without_seconds :: "shown_item \<Rightarrow> bool" where
  "red_without_seconds item =
     (case item of DrawCard c \<Rightarrow> cur_color c = ''red'' \<and> secs_remaining c = None | _ \<Rightarrow> True)"

definition is_card :: "shown_item \<Rightarrow> bool" where
  "is_card item = (case item of DrawCard c \<Rightarrow> True | _ \<Rightarrow> False)"

text \<open>A block is processed when it is well-formed and decodes to at least one observation.\<close>

definition processed :: "step list list \<Rightarrow> element option \<Rightarrow> bool" where
  "processed ts_paths blob =
     (case blob of
        None \<Rightarrow> False
      | Some r \<Rightarrow>
          (case parse_spat ts_paths r of
             Inl e \<Rightarrow> False
           | Inr (inter_id_spat, now_val, states) \<Rightarrow> states \<noteq> []))"




section \<open>Example documents\<close>

definition leaf :: "string \<Rightarrow> string \<Rightarrow> element" where
  "leaf t x = Element t (Some x) []"

definition connection :: "string \<Rightarrow> element" where
  "connection sgt = Element ''Connection'' None [leaf ''signalGroup'' sgt]"

definition generic_lane :: "string \<Rightarrow> element list \<Rightarrow> element" where
  "generic_lane lid cts = Element ''GenericLane'' None [leaf ''laneID'' lid, Element ''connectsTo'' None cts]"

definition geometry :: "element list \<Rightarrow> element" where
  "geometry gls =
     Element ''IntersectionGeometry'' None
       [Element ''id'' None [leaf ''id'' ''12''], Element ''laneSet'' None gls]"

definition map_data :: "element list \<Rightarrow> element" where
  "map_data gls = Element ''MapData'' None [Element ''intersections'' None [geometry gls]]"

definition movement :: "string \<Rightarrow> string \<Rightarrow> string \<Rightarrow> element" where
  "movement sgt ev endt =
     Element ''MovementState'' None
       [leaf ''signalGroup'' sgt,
        Element ''state-time-speed'' None
          [Element ''MovementEvent'' None
             [Element ''eventState'' None [Element ev None []],
              Element ''timing'' None [leaf ''minEndTime'' endt]]]]"

definition spat_frame :: "string \<Rightarrow> element list \<Rightarrow> element" where
  "spat_frame nowt mss =
     Element ''SPAT'' None
       [leaf ''timeStamp'' nowt,
        Element ''intersections'' None
          [Element ''IntersectionState'' None [Element ''states'' None mss]]]"

text \<open>Lane 5 is governed by signal group 2; lane 9 has no signal group.\<close>

definition example_map :: element where
  "example_map = map_data [generic_lane ''5'' [connection ''2''], generic_lane ''9'' []]"

text \<open>The command line \<^verbatim>\<open>--lane 5\<close>, and \<^verbatim>\<open>--lane 9\<close>, with the default rate \<^verbatim>\<open>0.1\<close>.\<close>

definition example_config :: config where
  "example_config = \<lparr>lane = 5, rate = Fin (round_double (1 / 10)), sync_time = False, no_clear = False\<rparr>"

definition unmapped_config :: config where
  "unmapped_config = \<lparr>lane = 9, rate = Fin (round_double (1 / 10)), sync_time = False, no_clear = False\<rparr>"

text \<open>
  The command line \<^verbatim>\<open>--lane 9 --sync-time\<close>, and a now counter of 310 digits, \<open>10\<^sup>3\<^sup>0\<^sup>9\<close>, which
  is too large for a float.
\<close>

definition unmapped_sync_config :: config where
  "unmapped_sync_config = \<lparr>lane = 9, rate = Fin (round_double (1 / 10)), sync_time = True, no_clear = False\<rparr>"

definition far_now :: string where
  "far_now = CHR ''1'' # replicate 309 CHR ''0''"

text \<open>A frame with one red observation: the now counter, the signal group, the phase end.\<close>

definition stop_frame :: "string \<Rightarrow> string \<Rightarrow> string \<Rightarrow> element" where
  "stop_frame nowt sgt endt = spat_frame nowt [movement sgt ''stop-And-Remain'' endt]"

text \<open>The seconds of the cards among the items shown, in order.\<close>

definition card_seconds :: "shown_item list \<Rightarrow> pyfloat option list" where
  "card_seconds items =
     List.map_filter (\<lambda>item. case item of DrawCard c \<Rightarrow> Some (secs_remaining c) | _ \<Rightarrow> None) items"

text \<open>A countdown state in the middle of a phase that ends at counter 50.\<close>

definition running_state :: smoother_state where
  "running_state =
     \<lparr>last_min_end = Some 50, simulated_rem = Some (Fin 6), last_ts = Some 59000, shown = 1\<rparr>"

section \<open>Rounding lemmas\<close>

lemma round_half_even_le: "y \<le> of_int N \<Longrightarrow> round_half_even y \<le> N"
proof -
  assume a: "y \<le> of_int N"
  have f: "\<lfloor>y\<rfloor> \<le> N" using a by (simp add: floor_le_iff) 
  show ?thesis
  proof (cases "\<lfloor>y\<rfloor> = N")
    case True
    then have "of_int N \<le> y" by (metis of_int_floor_le)
    then have "y - of_int \<lfloor>y\<rfloor> = 0" using a True by simp
    then show ?thesis using True by (simp add: round_half_even_def Let_def)
  next
    case False
    then have "\<lfloor>y\<rfloor> + 1 \<le> N" using f by simp
    then show ?thesis by (simp add: round_half_even_def Let_def)
  qed
qed

lemma round_half_even_ge: "of_int N \<le> y \<Longrightarrow> N \<le> round_half_even y"
proof -
  assume a: "of_int N \<le> y"
  have f: "N \<le> \<lfloor>y\<rfloor>" using a by (simp add: le_floor_iff)
  then show ?thesis by (simp add: round_half_even_def Let_def)
qed

lemma round_half_even_of_int: "round_half_even (of_int m) = m"
  by (simp add: round_half_even_def Let_def)

lemma pow2_pos: "0 < pow2 k"
  by (simp add: pow2_def)

lemma quantum_pos: "0 < quantum x"
  by (simp add: quantum_def pow2_pos)

lemma round_double_le:
  assumes "x \<le> of_int m * quantum x"
  shows "round_double x \<le> of_int m * quantum x"
proof (cases "x = 0")
  case True
  then show ?thesis using assms by (simp add: round_double_def)
next
  case False
  have "x / quantum x \<le> of_int m"
    using assms quantum_pos [of x] by (simp add: pos_divide_le_eq)
  then have "round_half_even (x / quantum x) \<le> m" by (rule round_half_even_le)
  then have "(of_int (round_half_even (x / quantum x)) :: rat) \<le> of_int m" by simp
  then show ?thesis using False quantum_pos [of x]
    by (simp add: round_double_def)
qed

lemma round_double_ge:
  assumes "of_int m * quantum x \<le> x"
  shows "of_int m * quantum x \<le> round_double x"
proof (cases "x = 0")
  case True
  then show ?thesis using assms by (simp add: round_double_def)
next
  case False
  have "of_int m \<le> x / quantum x"
    using assms quantum_pos [of x] by (simp add: pos_le_divide_eq)
  then have "m \<le> round_half_even (x / quantum x)" by (rule round_half_even_ge)
  then have "(of_int m :: rat) \<le> of_int (round_half_even (x / quantum x))" by simp
  then show ?thesis using False quantum_pos [of x]
    by (simp add: round_double_def)
qed

lemma round_double_nonneg: "0 \<le> x \<Longrightarrow> 0 \<le> round_double x"
  using round_double_ge [of 0 x] by simp

lemma round_double_nonpos: "x \<le> 0 \<Longrightarrow> round_double x \<le> 0"
  using round_double_le [of x 0] by simp

lemma binary_exponent_le:
  assumes "0 < x" and "x < 2 ^ n"
  shows "binary_exponent x \<le> int n - 1"
proof (cases "1 \<le> x")
  case True
  have "\<lfloor>x\<rfloor> < 2 ^ n" using assms(2) by (simp add: floor_less_iff)
  then have "bitlen \<lfloor>x\<rfloor> \<le> int n" by (simp add: bitlen_le_iff_power)
  then show ?thesis using True by (simp add: binary_exponent_def)
next
  case False
  then have "1 < 1 / x" using assms(1) by simp
  then have "2 \<le> \<lceil>1 / x\<rceil>" by (simp add: le_ceiling_iff)
  then have "1 \<le> bitlen (\<lceil>1 / x\<rceil> - 1)" by (simp add: bitlen_ge_iff_power)
  then show ?thesis using False by (simp add: binary_exponent_def)
qed

lemma pow2_multiple:
  assumes "k \<le> int j"
  shows "of_int (m * 2 ^ nat (int j - k)) * pow2 k = of_int m * 2 ^ j"
proof (cases "0 \<le> k")
  case True
  then have "j = nat (int j - k) + nat k" using assms by simp
  then have "(2::rat) ^ j = 2 ^ nat (int j - k) * 2 ^ nat k" by (metis power_add)
  then show ?thesis using True by (simp add: pow2_def)
next
  case False
  then have "nat (int j - k) = j + nat (- k)" by simp
  then have "(2::rat) ^ nat (int j - k) = 2 ^ j * 2 ^ nat (- k)" by (metis power_add)
  then show ?thesis using False by (simp add: pow2_def)
qed

lemma round_double_le_multiple:
  assumes "0 < x" and "x < 2 ^ n" and "int n \<le> int j + 53" and "x \<le> of_int m * 2 ^ j"
  shows "round_double x \<le> of_int m * 2 ^ j"
proof -
  let ?k = "max (binary_exponent \<bar>x\<bar> - 52) (- 1074)"
  have pos: "0 < \<bar>x\<bar>" and ax: "\<bar>x\<bar> = x" using assms(1) by simp_all
  have "\<bar>x\<bar> < 2 ^ n" using assms(2) ax by simp
  then have "binary_exponent \<bar>x\<bar> \<le> int n - 1" using pos by (intro binary_exponent_le)
  then have k: "?k \<le> int j" using assms(3) by simp
  have "of_int (m * 2 ^ nat (int j - ?k)) * pow2 ?k = of_int m * 2 ^ j"
    using k by (rule pow2_multiple)
  then have eq: "of_int (m * 2 ^ nat (int j - ?k)) * quantum x = of_int m * 2 ^ j"
    by (simp only: quantum_def)
  have "round_double x \<le> of_int (m * 2 ^ nat (int j - ?k)) * quantum x"
    using assms(4) by (intro round_double_le) (simp only: eq)
  then show ?thesis by (simp only: eq)
qed

lemma round_double_le_60:
  assumes "x \<le> 60"
  shows "round_double x \<le> 60"
proof (cases "x \<le> 0")
  case True
  then have "round_double x \<le> 0" by (rule round_double_nonpos)
  then show ?thesis by simp
next
  case False
  have "round_double x \<le> of_int 60 * 2 ^ 0"
    using False assms by (intro round_double_le_multiple [where n = 6]) simp_all
  then show ?thesis by simp
qed

lemma c_fmod_60_nonneg:
  assumes "0 \<le> z"
  shows "0 \<le> c_fmod z 60 \<and> c_fmod z 60 < 60"
proof -
  have q: "0 \<le> z / 60" using assms by simp
  have m: "c_fmod z 60 = z - 60 * of_int \<lfloor>z / 60\<rfloor>"
    using q by (simp add: c_fmod_def Let_def)
  have "of_int \<lfloor>z / 60\<rfloor> \<le> z / 60" by linarith
  moreover have "z / 60 < of_int \<lfloor>z / 60\<rfloor> + 1" by linarith
  ultimately show ?thesis unfolding m by linarith
qed

lemma c_fmod_60_neg:
  assumes "z < 0"
  shows "- 60 < c_fmod z 60 \<and> c_fmod z 60 \<le> 0"
proof -
  have q: "\<not> 0 \<le> z / 60" using assms by simp
  have m: "c_fmod z 60 = z - 60 * of_int \<lceil>z / 60\<rceil>"
    using q by (simp add: c_fmod_def Let_def)
  have "z / 60 \<le> of_int \<lceil>z / 60\<rceil>" by linarith
  moreover have "of_int \<lceil>z / 60\<rceil> - 1 < z / 60" by linarith
  ultimately show ?thesis unfolding m by linarith
qed

lemma float_rem_60_range: "0 \<le> float_rem z 60 \<and> float_rem z 60 \<le> 60"
proof (cases "0 \<le> z")
  case True
  then show ?thesis using c_fmod_60_nonneg [of z] by (simp add: float_rem_def Let_def)
next
  case False
  then have b: "- 60 < c_fmod z 60 \<and> c_fmod z 60 \<le> 0" using c_fmod_60_neg [of z] by simp
  show ?thesis
  proof (cases "c_fmod z 60 = 0")
    case True
    then show ?thesis by (simp add: float_rem_def Let_def)
  next
    case nz: False
    then have lt: "c_fmod z 60 < 0" using b by simp
    have r: "float_rem z 60 = round_double (c_fmod z 60 + 60)"
      using nz lt by (simp add: float_rem_def Let_def)
    have "0 \<le> round_double (c_fmod z 60 + 60)" using b by (intro round_double_nonneg) simp
    moreover have "round_double (c_fmod z 60 + 60) \<le> 60" using b by (intro round_double_le_60) simp
    ultimately show ?thesis unfolding r by simp
  qed
qed

lemma round_double_max_finite:
  assumes "0 \<le> x" and "x \<le> 2 ^ 1024 - 2 ^ 971"
  shows "0 \<le> round_double x \<and> round_double x < 2 ^ 1024"
proof (cases "x = 0")
  case True
  then show ?thesis by (simp add: round_double_def)
next
  case False
  have e: "(2::rat) ^ 1024 - 2 ^ 971 = of_int (2 ^ 53 - 1) * 2 ^ 971" by simp
  have lt: "x < 2 ^ 1024" using assms(2) by simp
  have pos: "0 < x" using False assms(1) by simp
  have le: "x \<le> of_int (2 ^ 53 - 1) * 2 ^ 971" using assms(2) by (simp only: e)
  have "int 1024 \<le> int 971 + 53" by simp
  with pos lt have "round_double x \<le> of_int (2 ^ 53 - 1) * 2 ^ 971"
    using le by (rule round_double_le_multiple)
  then have "round_double x < 2 ^ 1024" by simp
  then show ?thesis using assms(1) round_double_nonneg by simp
qed

lemma float_of_int_finite:
  assumes "0 \<le> n" and "n \<le> 2 ^ 1024 - 2 ^ 971"
  shows "\<exists>a. float_of_int n = Inr a \<and> 0 \<le> a"
proof -
  have "(of_int n :: rat) \<le> of_int (2 ^ 1024 - 2 ^ 971)" using assms(2) by (simp only: of_int_le_iff)
  then have "(of_int n :: rat) \<le> 2 ^ 1024 - 2 ^ 971" by simp
  then have "0 \<le> round_double (of_int n) \<and> round_double (of_int n) < 2 ^ 1024"
    using assms(1) by (intro round_double_max_finite) simp_all
  then show ?thesis by (simp add: float_of_int_def Let_def)
qed

lemma round_double_exact_abs:
  assumes "x \<noteq> 0" and "\<bar>x\<bar> < 2 ^ n" and "int n \<le> int j + 53" and "x = of_int m * 2 ^ j"
  shows "round_double x = x"
proof -
  let ?k = "max (binary_exponent \<bar>x\<bar> - 52) (- 1074)"
  let ?M = "m * 2 ^ nat (int j - ?k)"
  have pos: "0 < \<bar>x\<bar>" using assms(1) by simp
  then have "binary_exponent \<bar>x\<bar> \<le> int n - 1" using assms(2) by (intro binary_exponent_le)
  then have k: "?k \<le> int j" using assms(3) by simp
  have "of_int ?M * pow2 ?k = of_int m * 2 ^ j"
    using k by (rule pow2_multiple)
  then have eq: "of_int ?M * quantum x = x"
    using assms(4) by (simp only: quantum_def)
  have "x / quantum x = of_int ?M"
    using quantum_pos [of x] eq by (simp add: divide_eq_eq)
  then have "round_half_even (x / quantum x) = ?M"
    by (simp only: round_half_even_of_int)
  then have "round_double x = of_int ?M * quantum x"
    using assms(1) by (simp add: round_double_def)
  then show ?thesis by (simp only: eq)
qed

lemma round_double_of_int_abs:
  assumes "\<bar>n\<bar> < 2 ^ 53"
  shows "round_double (of_int n) = of_int n"
proof (cases "n = 0")
  case True
  then show ?thesis by (simp add: round_double_def)
next
  case False
  have "(of_int \<bar>n\<bar> :: rat) < of_int (2 ^ 53)" using assms by (simp only: of_int_less_iff)
  then have lt: "\<bar>of_int n :: rat\<bar> < 2 ^ 53" by simp
  have nz: "(of_int n :: rat) \<noteq> 0" using False by simp
  have "int 53 \<le> int 0 + 53" by simp
  moreover have "(of_int n :: rat) = of_int n * 2 ^ 0" by simp
  ultimately show ?thesis using nz lt by (rule round_double_exact_abs [rotated 2])
qed

lemma round_double_of_int:
  assumes "0 \<le> n" and "n < 2 ^ 53"
  shows "round_double (of_int n) = of_int n"
  using assms by (intro round_double_of_int_abs) simp

lemma c_fmod_60_of_int:
  assumes "0 \<le> a"
  shows "c_fmod (of_int a) 60 = of_int (a mod 60)"
proof -
  have q: "(0::rat) \<le> of_int a / 60" using assms by simp
  have "\<lfloor>(of_int a :: rat) / of_int 60\<rfloor> = a div 60" by (rule floor_divide_of_int_eq)
  then have f: "\<lfloor>(of_int a :: rat) / 60\<rfloor> = a div 60" by simp
  have "c_fmod (of_int a) 60 = of_int a - 60 * of_int (a div 60)"
    using q f by (simp add: c_fmod_def Let_def)
  also have "\<dots> = of_int (a - 60 * (a div 60))" by simp
  also have "a - 60 * (a div 60) = a mod 60" by (simp add: minus_mult_div_eq_mod)
  finally show ?thesis .
qed

lemma float_rem_60_of_int:
  assumes "0 \<le> a"
  shows "float_rem (of_int a) 60 = of_int (a mod 60)"
proof -
  have "\<not> a mod 60 < 0" by simp
  then show ?thesis using c_fmod_60_of_int [OF assms] by (simp add: float_rem_def Let_def)
qed

lemma float_of_int_exact:
  assumes "\<bar>n\<bar> < 2 ^ 53"
  shows "float_of_int n = Inr (of_int n)"
proof -
  have "(of_int \<bar>n\<bar> :: rat) < of_int (2 ^ 53)" using assms by (simp only: of_int_less_iff)
  then have "\<bar>of_int n :: rat\<bar> < 2 ^ 53" by simp
  then have "\<not> 2 ^ 1024 \<le> \<bar>of_int n :: rat\<bar>" by simp
  then show ?thesis using round_double_of_int_abs [OF assms]
    by (simp add: float_of_int_def Let_def)
qed

lemma int_truediv_exact:
  assumes "\<bar>n\<bar> < 2 ^ 53"
  shows "int_truediv n d = Inr (float_div (of_int n) d)"
  by (simp add: int_truediv_def float_of_int_exact [OF assms])

lemma to_pyfloat_finite:
  assumes "\<bar>r\<bar> < 2 ^ 1024"
  shows "to_pyfloat r = Fin r"
proof -
  define B :: rat where "B = 2 ^ 1024"
  have "\<bar>r\<bar> < B" using assms by (simp only: B_def)
  then have "\<not> B \<le> r" and "\<not> r \<le> - B" by linarith+
  then show ?thesis unfolding to_pyfloat_def B_def by (simp only: if_False)
qed

lemma float_of_int_nonneg:
  assumes "0 \<le> n" and "float_of_int n = Inr a"
  shows "0 \<le> a"
proof -
  have "a = round_double (of_int n)" using assms(2)
    by (simp add: float_of_int_def Let_def split: if_splits)
  then show ?thesis using assms(1) round_double_nonneg by simp
qed

lemma int_truediv_nonneg:
  assumes "0 \<le> n" and "0 < d" and "int_truediv n d = Inr q"
  shows "0 \<le> q"
proof -
  obtain a where a: "float_of_int n = Inr a" and q: "q = float_div a d"
    using assms(3) by (auto simp: int_truediv_def split: sum.splits)
  have "0 \<le> a" using assms(1) a by (rule float_of_int_nonneg)
  then have "0 \<le> a / d" using assms(2) by simp
  then show ?thesis unfolding q float_div_def by (rule round_double_nonneg)
qed

text \<open>An integer of \<open>2\<^sup>1\<^sup>0\<^sup>2\<^sup>4\<close> or more does not convert: rounding keeps it at or above \<open>2\<^sup>1\<^sup>0\<^sup>2\<^sup>4\<close>.\<close>

lemma round_double_ge_power:
  assumes "(2::rat) ^ j \<le> x"
  shows "2 ^ j \<le> round_double x"
proof -
  let ?b = "\<lfloor>x\<rfloor>"
  let ?e = "bitlen ?b - 1"
  let ?k = "max (binary_exponent \<bar>x\<bar> - 52) (- 1074)"
  have one: "(1::rat) \<le> 2 ^ j" by simp
  then have x1: "1 \<le> x" using assms by linarith
  then have ax: "\<bar>x\<bar> = x" by simp
  have "(of_int (2 ^ j) :: rat) \<le> x" using assms by simp
  then have bj: "2 ^ j \<le> ?b" by (simp only: le_floor_iff)
  have "(0::int) < 2 ^ j" by simp
  then have bpos: "0 < ?b" using bj by linarith
  have "nat (int j + 1) - 1 = j" by simp
  then have "int j + 1 \<le> bitlen ?b"
    using bj by (simp only: bitlen_ge_iff_power) simp
  then have ej: "int j \<le> ?e" by simp
  have be: "binary_exponent \<bar>x\<bar> = ?e" using x1 ax by (simp add: binary_exponent_def)
  have k: "?k = ?e - 52" using ej be by simp
  have q: "quantum x = pow2 (?e - 52)" using k by (simp only: quantum_def)
  show ?thesis
  proof (cases "?e - 52 \<le> int j")
    case True
    have "of_int (1 * 2 ^ nat (int j - (?e - 52))) * pow2 (?e - 52) = of_int 1 * (2::rat) ^ j"
      using True by (rule pow2_multiple)
    then have eq: "of_int (1 * 2 ^ nat (int j - (?e - 52))) * quantum x = 2 ^ j"
      by (simp only: q of_int_1 mult_1)
    have "of_int (1 * 2 ^ nat (int j - (?e - 52))) * quantum x \<le> round_double x"
      using assms by (intro round_double_ge) (simp only: eq)
    then show ?thesis by (simp only: eq)
  next
    case False
    then have kj: "int j < ?e - 52" by simp
    then have kpos: "0 \<le> ?e - 52" by linarith
    then have qp: "quantum x = 2 ^ nat (?e - 52)" using q by (simp add: pow2_def)
    have "nat (?e - 52) \<le> nat ?e" by simp
    then have "(2::int) ^ nat (?e - 52) \<le> 2 ^ nat ?e" by (intro power_increasing) simp_all
    moreover have "2 ^ nat ?e \<le> ?b" using bpos bitlen_bounds [of ?b] by simp
    ultimately have "(2::int) ^ nat (?e - 52) \<le> ?b" by linarith
    then have "(of_int (2 ^ nat (?e - 52)) :: rat) \<le> of_int ?b" by (simp only: of_int_le_iff)
    moreover have "of_int ?b \<le> x" by (rule of_int_floor_le)
    ultimately have "(of_int (2 ^ nat (?e - 52)) :: rat) \<le> x" by (rule order_trans)
    then have "(2::rat) ^ nat (?e - 52) \<le> x" by simp
    then have "of_int 1 * quantum x \<le> x" using qp by simp
    then have "of_int 1 * quantum x \<le> round_double x" by (rule round_double_ge)
    then have r: "(2::rat) ^ nat (?e - 52) \<le> round_double x" using qp by simp
    have "j \<le> nat (?e - 52)" using kj by simp
    then have "(2::rat) ^ j \<le> 2 ^ nat (?e - 52)" by (intro power_increasing) simp_all
    then show ?thesis using r by linarith
  qed
qed

lemma float_of_int_too_large:
  assumes "2 ^ 1024 \<le> n"
  shows "float_of_int n = Inl OverflowError"
proof -
  have "(of_int (2 ^ 1024) :: rat) \<le> of_int n" using assms by (simp only: of_int_le_iff)
  then have "(2::rat) ^ 1024 \<le> of_int n" by simp
  then have "(2::rat) ^ 1024 \<le> round_double (of_int n)" by (rule round_double_ge_power)
  then have "(2::rat) ^ 1024 \<le> \<bar>round_double (of_int n)\<bar>" by linarith
  then show ?thesis by (simp add: float_of_int_def Let_def)
qed

section \<open>Lemmas on the resolver\<close>

text \<open>
  Whatever the counters, a result of the primary hypothesis passes the guard: the last
  operation is \<^verbatim>\<open>% 60.0\<close>. So the fallback hypotheses are dead code.
\<close>

lemma primary_remaining_range:
  assumes "primary_remaining n m = Inr r"
  shows "0 \<le> r \<and> r \<le> 60"
proof -
  obtain z where "r = float_rem z 60"
    using assms by (auto simp: primary_remaining_def Let_def split: sum.splits)
  then show ?thesis using float_rem_60_range by simp
qed

lemma fallback_never_reached:
  "detect_unit_and_delta (Some n) (Some m) =
     (case primary_remaining n m of Inl e \<Rightarrow> Inl e | Inr r \<Rightarrow> Inr (Some (Fin r)))"
proof (cases "primary_remaining n m")
  case (Inl e)
  then show ?thesis by (simp add: detect_unit_and_delta_def)
next
  case (Inr r)
  then show ?thesis using primary_remaining_range [OF Inr] by (simp add: detect_unit_and_delta_def)
qed

text \<open>An integer of 1025 bits is too large for \<^verbatim>\<open>float\<close>: the resolver raises.\<close>

lemma float_of_int_overflow: "float_of_int (2 ^ 1024) = Inl OverflowError"
proof -
  have nz: "(2::rat) ^ 1024 \<noteq> 0" by simp
  have lt: "\<bar>(2::rat) ^ 1024\<bar> < 2 ^ 1025" by simp
  have "int 1025 \<le> int 1024 + 53" by simp
  moreover have "(2::rat) ^ 1024 = of_int 1 * 2 ^ 1024" by simp
  ultimately have "round_double (2 ^ 1024) = 2 ^ 1024"
    using nz lt by (rule round_double_exact_abs [rotated 2])
  then show ?thesis by (simp add: float_of_int_def Let_def)
qed

lemma detect_unit_and_delta_overflow:
  "detect_unit_and_delta (Some (2 ^ 1024)) (Some 0) = Inl OverflowError"
  by (simp only: detect_unit_and_delta_def primary_remaining_def int_truediv_def
      float_of_int_overflow prod.case option.case sum.case)

lemma detect_unit_and_delta_in_range:
  assumes "detect_unit_and_delta now_val met_val = Inr rem_secs"
  shows "in_range rem_secs"
proof (cases "now_val = None \<or> met_val = None")
  case True
  then have "rem_secs = None" using assms
    by (auto simp: detect_unit_and_delta_def split: option.splits)
  then show ?thesis by (simp add: in_range_def)
next
  case False
  then obtain n m where nm: "now_val = Some n" "met_val = Some m" by auto
  show ?thesis
  proof (cases "primary_remaining n m")
    case (Inl e)
    then show ?thesis using assms nm by (simp add: detect_unit_and_delta_def)
  next
    case (Inr r)
    then obtain z where "r = float_rem z 60"
      by (auto simp: primary_remaining_def Let_def split: sum.splits)
    then have range: "0 \<le> r \<and> r \<le> 60" using float_rem_60_range by simp
    then have "rem_secs = Some (Fin r)" using assms nm Inr
      by (simp add: detect_unit_and_delta_def)
    then show ?thesis using range by (simp add: in_range_def)
  qed
qed

lemma detect_unit_and_delta_small:
  assumes "\<bar>n\<bar> < 2 ^ 53" and "\<bar>m\<bar> < 2 ^ 53"
  shows "detect_unit_and_delta (Some n) (Some m) =
           Inr (Some (Fin (float_rem (float_sub (float_rem (float_div (of_int m) 10) 60)
                                               (float_rem (float_div (of_int n) 1000) 60)) 60)))"
  using float_rem_60_range
  by (simp add: detect_unit_and_delta_def primary_remaining_def int_truediv_exact [OF assms(1)]
      int_truediv_exact [OF assms(2)] Let_def)

lemma eval_primary_60100_1:
  "float_rem (float_sub (float_rem (float_div 1 10) 60) (float_rem (float_div 60100 1000) 60)) 60 = 60"
  by code_simp

lemma eval_primary_10_10:
  "float_rem (float_sub (float_rem (float_div 10 10) 60) (float_rem (float_div 10 1000) 60)) 60 =
     4458563631096791 / 4503599627370496"
  by code_simp

lemma eval_primary_59000_50:
  "float_rem (float_sub (float_rem (float_div 50 10) 60) (float_rem (float_div 59000 1000) 60)) 60 = 6"
  by code_simp

lemma eval_primary_0_50:
  "float_rem (float_sub (float_rem (float_div 50 10) 60) (float_rem (float_div 0 1000) 60)) 60 = 5"
  by code_simp

lemma eval_primary_59500_70:
  "float_rem (float_sub (float_rem (float_div 70 10) 60) (float_rem (float_div 59500 1000) 60)) 60 = 15 / 2"
  by code_simp

lemma detect_60100_1: "detect_unit_and_delta (Some 60100) (Some 1) = Inr (Some (Fin 60))"
  using detect_unit_and_delta_small [of 60100 1] by (simp add: eval_primary_60100_1)

lemma detect_10_10:
  "detect_unit_and_delta (Some 10) (Some 10) = Inr (Some (Fin (4458563631096791 / 4503599627370496)))"
  using detect_unit_and_delta_small [of 10 10] by (simp add: eval_primary_10_10)

lemma detect_59000_50: "detect_unit_and_delta (Some 59000) (Some 50) = Inr (Some (Fin 6))"
  using detect_unit_and_delta_small [of 59000 50] by (simp add: eval_primary_59000_50)

lemma detect_0_50: "detect_unit_and_delta (Some 0) (Some 50) = Inr (Some (Fin 5))"
  using detect_unit_and_delta_small [of 0 50] by (simp add: eval_primary_0_50)

lemma detect_59500_70: "detect_unit_and_delta (Some 59500) (Some 70) = Inr (Some (Fin (15 / 2)))"
  using detect_unit_and_delta_small [of 59500 70] by (simp add: eval_primary_59500_70)

lemma eval_div_wrap: "float_div (- 59000) 10 = - 5900"
  by code_simp

lemma eval_sub_wrap: "float_sub 6 (- 5900) = 5906"
  by code_simp

section \<open>Lemmas on the decoders\<close>

lemma digits_value_foldl_nonneg:
  "0 \<le> acc \<Longrightarrow> \<forall>c \<in> set s. 48 \<le> (of_char c :: nat) \<Longrightarrow>
     0 \<le> foldl (\<lambda>acc c. 10 * acc + (int (of_char c) - 48)) acc s"
proof (induction s arbitrary: acc)
  case Nil
  then show ?case by simp
next
  case (Cons c s)
  from Cons.prems have "0 \<le> 10 * acc + (int (of_char c) - 48)" by simp
  then show ?case using Cons.prems Cons.IH by simp
qed

lemma isdigit_char_ge: "isdigit_char c \<Longrightarrow> 48 \<le> (of_char c :: nat)"
  by (auto simp: isdigit_char_def is_digit_def)

lemma isdigit_char_not_sign: "isdigit_char c \<Longrightarrow> c \<noteq> CHR ''-'' \<and> c \<noteq> CHR ''+''"
  by (auto simp: isdigit_char_def is_digit_def)

lemma unsigned_literal_nonneg:
  assumes "unsigned_literal body = Some v" and "\<forall>c \<in> set body. 48 \<le> (of_char c :: nat)"
  shows "0 \<le> v"
proof -
  have v: "v = digits_value (filter (\<lambda>c. c \<noteq> CHR ''_'') body)"
    using assms(1) by (simp add: unsigned_literal_def Let_def split: if_splits)
  have "\<forall>c \<in> set (filter (\<lambda>c. c \<noteq> CHR ''_'') body). 48 \<le> (of_char c :: nat)"
    using assms(2) by simp
  then show ?thesis unfolding v digits_value_def by (intro digits_value_foldl_nonneg) simp_all
qed

lemma py_int_isdigit_nonneg:
  assumes "list_all isdigit_char s" and "py_int s = Some v"
  shows "0 \<le> v"
proof -
  define body where "body = rev (dropWhile int_isspace (rev (dropWhile int_isspace s)))"
  have "set body \<subseteq> set (dropWhile int_isspace s)"
    unfolding body_def using set_dropWhileD [of _ int_isspace "rev (dropWhile int_isspace s)"]
    by auto
  moreover have "set (dropWhile int_isspace s) \<subseteq> set s"
    using set_dropWhileD [of _ int_isspace s] by auto
  ultimately have sub: "set body \<subseteq> set s" by blast
  then have dig: "\<forall>c \<in> set body. isdigit_char c"
    using assms(1) by (auto simp: list_all_iff)
  show ?thesis
  proof (cases body)
    case Nil
    then show ?thesis using assms(2) by (simp add: py_int_def body_def [symmetric])
  next
    case (Cons c r)
    then have "isdigit_char c" using dig by simp
    then have "c \<noteq> CHR ''-'' \<and> c \<noteq> CHR ''+''" by (rule isdigit_char_not_sign)
    then have "unsigned_literal body = Some v"
      using assms(2) Cons by (simp add: py_int_def body_def [symmetric])
    moreover have "\<forall>c \<in> set body. 48 \<le> (of_char c :: nat)"
      using dig isdigit_char_ge by blast
    ultimately show ?thesis by (rule unsigned_literal_nonneg)
  qed
qed

lemma digit_text_nonneg: "digit_text node = Inr (Some v) \<Longrightarrow> 0 \<le> v"
  by (auto simp: digit_text_def py_isdigit_def dest: py_int_isdigit_nonneg
      split: option.splits if_splits)

lemma first_digit_text_nonneg: "first_digit_text subs = Inr (Some v) \<Longrightarrow> 0 \<le> v"
proof (induction subs)
  case Nil
  then show ?case by simp
next
  case (Cons sub subs)
  show ?case
  proof (cases "digit_text sub")
    case (Inl e)
    then show ?thesis using Cons.prems by simp
  next
    case (Inr x)
    show ?thesis
    proof (cases x)
      case None
      then show ?thesis using Cons Inr by simp
    next
      case (Some w)
      then have "digit_text sub = Inr (Some v)" using Cons.prems Inr by simp
      then show ?thesis by (rule digit_text_nonneg)
    qed
  qed
qed

lemma num_in_node_or_kids_nonneg: "num_in_node_or_kids node = Inr (Some v) \<Longrightarrow> 0 \<le> v"
proof (cases node)
  case None
  then show "num_in_node_or_kids node = Inr (Some v) \<Longrightarrow> 0 \<le> v"
    by (simp add: num_in_node_or_kids_def)
next
  case (Some n)
  assume a: "num_in_node_or_kids node = Inr (Some v)"
  show "0 \<le> v"
  proof (cases "digit_text n")
    case (Inl e)
    then show ?thesis using a Some by (simp add: num_in_node_or_kids_def)
  next
    case (Inr x)
    show ?thesis
    proof (cases x)
      case None
      then have "first_digit_text (descendants n) = Inr (Some v)"
        using a Some Inr by (simp add: num_in_node_or_kids_def)
      then show ?thesis by (rule first_digit_text_nonneg)
    next
      case inner: (Some w)
      then have "digit_text n = Inr (Some v)"
        using a Some Inr by (simp add: num_in_node_or_kids_def)
      then show ?thesis by (rule digit_text_nonneg)
    qed
  qed
qed

lemma num_at_any_nonneg: "num_at_any el paths = Inr (Some v) \<Longrightarrow> 0 \<le> v"
proof (induction paths)
  case Nil
  then show ?case by simp
next
  case (Cons p paths)
  show ?case
  proof (cases "num_in_node_or_kids (find_el el p)")
    case (Inl e)
    then show ?thesis using Cons.prems by simp
  next
    case (Inr x)
    show ?thesis
    proof (cases x)
      case None
      then show ?thesis using Cons Inr by simp
    next
      case (Some w)
      then have "num_in_node_or_kids (find_el el p) = Inr (Some v)" using Cons.prems Inr by simp
      then show ?thesis by (rule num_in_node_or_kids_nonneg)
    qed
  qed
qed

lemma find_Some_set: "List.find P xs = Some x \<Longrightarrow> x \<in> set xs"
  by (induction xs) (auto split: if_splits)

lemma extract_now_value_nonneg:
  assumes "extract_now_value ts_paths spat = Inr now"
  shows "nonneg_opt now"
proof (cases now)
  case None
  then show ?thesis by (simp add: nonneg_opt_def)
next
  case (Some v)
  obtain ts moy where ts: "num_at_any spat ts_paths = Inr ts"
    and moy: "num_at_any spat [[Desc ''moy'']] = Inr moy"
    using assms by (auto simp: extract_now_value_def split: sum.splits)
  define cands where "cands =
    (case ts of None \<Rightarrow> [] | Some v \<Rightarrow> [v]) @ (case moy of None \<Rightarrow> [] | Some v \<Rightarrow> [v])"
  have all: "0 \<le> c" if "c \<in> set cands" for c
  proof -
    from that have "ts = Some c \<or> moy = Some c"
      unfolding cands_def by (auto split: option.splits)
    then show ?thesis using ts moy num_at_any_nonneg by blast
  qed
  have ex: "now =
     (if cands = [] then None
      else (case List.find (\<lambda>v. v \<le> 60000 \<or> v \<le> 6000 \<or> v \<le> 600) cands of
              Some v \<Rightarrow> Some v | None \<Rightarrow> Some (hd cands)))"
    using assms ts moy unfolding extract_now_value_def cands_def Let_def by simp
  have "v \<in> set cands"
  proof (cases "List.find (\<lambda>v. v \<le> 60000 \<or> v \<le> 6000 \<or> v \<le> 600) cands")
    case None
    then show ?thesis using Some ex by (auto split: if_splits)
  next
    case found: (Some w)
    then have "w \<in> set cands" by (rule find_Some_set)
    then show ?thesis using found Some ex by (auto split: if_splits)
  qed
  then show ?thesis using all Some by (simp add: nonneg_opt_def)
qed

lemma read_min_end_tags_nonneg: "read_min_end_tags t tags = Inr (Some m) \<Longrightarrow> 0 \<le> m"
proof (induction tags)
  case Nil
  then show ?case by simp
next
  case (Cons tg tags)
  show ?case
  proof (cases "num_at_any t [[Child tg]]")
    case (Inl e)
    then show ?thesis using Cons.prems by simp
  next
    case (Inr x)
    show ?thesis
    proof (cases x)
      case None
      then show ?thesis using Cons Inr by simp
    next
      case (Some w)
      then have "num_at_any t [[Child tg]] = Inr (Some m)" using Cons.prems Inr by simp
      then show ?thesis by (rule num_at_any_nonneg)
    qed
  qed
qed

lemma read_min_end_parents_nonneg: "read_min_end_parents ev_el parents = Inr (Some m) \<Longrightarrow> 0 \<le> m"
proof (induction parents)
  case Nil
  then show ?case by simp
next
  case (Cons parent parents)
  show ?case
  proof (cases "find_el ev_el [Child parent]")
    case None
    then show ?thesis using Cons by simp
  next
    case (Some t)
    show ?thesis
    proof (cases "read_min_end_tags t [''likelyTime'', ''minEndTime'', ''maxEndTime'', ''endTime'']")
      case (Inl e)
      then show ?thesis using Cons.prems Some by simp
    next
      case (Inr x)
      show ?thesis
      proof (cases x)
        case None
        then show ?thesis using Cons Some Inr by simp
      next
        case inner: (Some w)
        then have "read_min_end_tags t [''likelyTime'', ''minEndTime'', ''maxEndTime'', ''endTime''] = Inr (Some m)"
          using Cons.prems Some Inr by simp
        then show ?thesis by (rule read_min_end_tags_nonneg)
      qed
    qed
  qed
qed

lemma read_min_end_any_nonneg: "read_min_end_any ev_el = Inr (Some m) \<Longrightarrow> 0 \<le> m"
  unfolding read_min_end_any_def by (rule read_min_end_parents_nonneg)

lemma choose_event_nonneg: "choose_event evs = Inr (Some (ev_el, Some m)) \<Longrightarrow> 0 \<le> m"
proof (induction evs)
  case Nil
  then show ?case by simp
next
  case (Cons ev evs)
  show ?case
  proof (cases "read_min_end_any ev")
    case (Inl e)
    then show ?thesis using Cons.prems by simp
  next
    case (Inr x)
    show ?thesis
    proof (cases x)
      case None
      then show ?thesis using Cons Inr by simp
    next
      case (Some w)
      then have "read_min_end_any ev = Inr (Some m)" using Cons.prems Inr by simp
      then show ?thesis by (rule read_min_end_any_nonneg)
    qed
  qed
qed

lemma movement_state_nonneg:
  assumes "movement_state sg_val ms = Inr ob" and "minEndRaw ob = Some m"
  shows "0 \<le> m"
proof -
  define events where "events = findall ms [Child ''state-time-speed'', Child ''MovementEvent'']"
  note ms = assms(1) [unfolded movement_state_def Let_def, folded events_def]
  show ?thesis
  proof (cases "choose_event events")
    case (Inl e)
    then show ?thesis using ms by simp
  next
    case (Inr ch)
    show ?thesis
    proof (cases ch)
      case None
      show ?thesis
      proof (cases events)
        case Nil
        then show ?thesis using ms Inr None assms(2) by auto
      next
        case (Cons ev0 evs)
        then have "read_min_end_any ev0 = Inr (Some m)"
          using ms Inr None assms(2) by (auto split: sum.splits)
        then show ?thesis by (rule read_min_end_any_nonneg)
      qed
    next
      case (Some c)
      obtain ev_el met where c: "c = (ev_el, met)" by (cases c)
      then have "met = Some m" using ms Inr Some assms(2) by auto
      then show ?thesis using Inr Some c choose_event_nonneg by blast
    qed
  qed
qed

lemma parse_states_nonneg:
  "parse_states mss = Inr obs \<Longrightarrow> ob \<in> set obs \<Longrightarrow> minEndRaw ob = Some m \<Longrightarrow> 0 \<le> m"
proof (induction mss arbitrary: obs)
  case Nil
  then show ?case by simp
next
  case (Cons ms mss)
  then show ?case
    by (auto dest: movement_state_nonneg split: option.splits if_splits sum.splits)
qed

lemma parse_spat_cases:
  assumes "parse_spat ts_paths r = Inr (iid, now_val, states)"
  shows "(now_val = None \<and> states = []) \<or>
         (\<exists>spat inter_el. extract_now_value ts_paths spat = Inr now_val \<and>
            parse_states (findall inter_el [Child ''states'', Child ''MovementState'']) = Inr states)"
  using assms unfolding parse_spat_def
  by (auto split: option.splits if_splits sum.splits)

lemma parse_spat_nonneg:
  assumes "parse_spat ts_paths r = Inr (iid, now_val, states)"
  shows "nonneg_opt now_val \<and> (\<forall>ob \<in> set states. nonneg_opt (minEndRaw ob))"
proof -
  from parse_spat_cases [OF assms] show ?thesis
  proof
    assume "now_val = None \<and> states = []"
    then show ?thesis by (simp add: nonneg_opt_def)
  next
    assume "\<exists>spat inter_el. extract_now_value ts_paths spat = Inr now_val \<and>
            parse_states (findall inter_el [Child ''states'', Child ''MovementState'']) = Inr states"
    then obtain spat inter_el where n: "extract_now_value ts_paths spat = Inr now_val"
      and s: "parse_states (findall inter_el [Child ''states'', Child ''MovementState'']) = Inr states"
      by blast
    have "nonneg_opt now_val" using n by (rule extract_now_value_nonneg)
    moreover have "nonneg_opt (minEndRaw ob)" if "ob \<in> set states" for ob
    proof (cases "minEndRaw ob")
      case None
      then show ?thesis by (simp add: nonneg_opt_def)
    next
      case (Some m)
      then have "0 \<le> m" using that s parse_states_nonneg by blast
      then show ?thesis using Some by (simp add: nonneg_opt_def)
    qed
    ultimately show ?thesis by blast
  qed
qed





lemma parse_example_map: "parse_map example_map = (Some ''12'', None, [(5, Some 2), (9, None)])"
  by code_simp

lemma parse_negative_map:
  "parse_map (map_data [generic_lane ''-7'' [connection ''-2'']]) = (Some ''12'', None, [(- 7, Some (- 2))])"
  by code_simp

lemma parse_stop_frame_59000:
  "parse_spat ts_paths_rate_sync (stop_frame ''59000'' ''2'' ''50'') =
     Inr (None, Some 59000, [\<lparr>sg = 2, event = Some ''stop-And-Remain'', minEndRaw = Some 50\<rparr>])"
  by code_simp

lemma parse_stop_frame_0:
  "parse_spat ts_paths_rate_sync (stop_frame ''0'' ''2'' ''50'') =
     Inr (None, Some 0, [\<lparr>sg = 2, event = Some ''stop-And-Remain'', minEndRaw = Some 50\<rparr>])"
  by code_simp

lemma parse_stop_frame_60100:
  "parse_spat ts_paths_rate_sync (stop_frame ''60100'' ''2'' ''1'') =
     Inr (None, Some 60100, [\<lparr>sg = 2, event = Some ''stop-And-Remain'', minEndRaw = Some 1\<rparr>])"
  by code_simp

lemma parse_stop_frame_59500:
  "parse_spat ts_paths_rate_sync (stop_frame ''59500'' ''2'' ''50'') =
     Inr (None, Some 59500, [\<lparr>sg = 2, event = Some ''stop-And-Remain'', minEndRaw = Some 50\<rparr>])"
  by code_simp

lemma parse_stop_frame_59500_70:
  "parse_spat ts_paths_rate_sync (stop_frame ''59500'' ''2'' ''70'') =
     Inr (None, Some 59500, [\<lparr>sg = 2, event = Some ''stop-And-Remain'', minEndRaw = Some 70\<rparr>])"
  by code_simp

lemma parse_other_frame:
  "parse_spat ts_paths_rate_sync (stop_frame ''59100'' ''3'' ''77'') =
     Inr (None, Some 59100, [\<lparr>sg = 3, event = Some ''stop-And-Remain'', minEndRaw = Some 77\<rparr>])"
  by code_simp

lemma parse_other_frame_offline:
  "parse_spat ts_paths_offline (stop_frame ''59100'' ''3'' ''77'') =
     Inr (None, Some 59100, [\<lparr>sg = 3, event = Some ''stop-And-Remain'', minEndRaw = Some 77\<rparr>])"
  by code_simp

lemma parse_negative_frame:
  "parse_spat ts_paths_rate_sync (stop_frame ''58000'' ''-3'' ''50'') =
     Inr (None, Some 58000, [\<lparr>sg = - 3, event = Some ''stop-And-Remain'', minEndRaw = Some 50\<rparr>])"
  by code_simp

lemma parse_stop_frame_59000_offline:
  "parse_spat ts_paths_offline (stop_frame ''59000'' ''2'' ''50'') =
     Inr (None, Some 59000, [\<lparr>sg = 2, event = Some ''stop-And-Remain'', minEndRaw = Some 50\<rparr>])"
  by code_simp

lemma parse_stop_frame_100:
  "parse_spat ts_paths_rate_sync (stop_frame ''100'' ''2'' ''50'') =
     Inr (None, Some 100, [\<lparr>sg = 2, event = Some ''stop-And-Remain'', minEndRaw = Some 50\<rparr>])"
  by code_simp

lemma parse_stop_frame_far:
  "parse_spat ts_paths_rate_sync (stop_frame far_now ''2'' ''50'') =
     Inr (None, Some (10 ^ 309), [\<lparr>sg = 2, event = Some ''stop-And-Remain'', minEndRaw = Some 50\<rparr>])"
  by code_simp

text \<open>
  A timestamp that is the superscript digit two passes \<^verbatim>\<open>isdigit\<close> and is rejected by
  \<^verbatim>\<open>int\<close>: decoding the frame raises \<^verbatim>\<open>ValueError\<close> in both scripts.
\<close>

lemma parse_superscript_frame:
  "parse_spat ts_paths_rate_sync (stop_frame [CHR 0xB2] ''2'' ''50'') = Inl ValueError \<and>
   parse_spat ts_paths_offline (stop_frame [CHR 0xB2] ''2'' ''50'') = Inl ValueError"
  by code_simp

section \<open>Lemmas on the frame loop of each script\<close>

lemma scan_states_result:
  assumes "scan_states my_sg rate_v now_val st states = Inr (ev, st1)"
  shows "(observer_observation my_sg states = None \<and> ev = None \<and> st1 = st) \<or>
         (\<exists>ob. observer_observation my_sg states = Some ob \<and> ev = event ob \<and>
               smooth_step rate_v now_val st ob = Inr st1)"
  using assms
proof (induction states)
  case Nil
  then show ?case by (simp add: observer_observation_def)
next
  case (Cons ob obs)
  show ?case
  proof (cases "Some (sg ob) = my_sg")
    case True
    then show ?thesis using Cons.prems
      by (auto simp: observer_observation_def split: sum.splits)
  next
    case False
    then show ?thesis using Cons
      by (simp add: observer_observation_def)
  qed
qed

lemma scan_states_found:
  assumes "observer_observation my_sg states = Some ob"
  shows "scan_states my_sg rate_v now_val st states =
           (case smooth_step rate_v now_val st ob of Inl e \<Rightarrow> Inl e | Inr st' \<Rightarrow> Inr (event ob, st'))"
  using assms
proof (induction states)
  case Nil
  then show ?case by (simp add: observer_observation_def)
next
  case (Cons o1 obs)
  then show ?case by (auto simp: observer_observation_def split: if_splits)
qed

lemma scan_states_not_found:
  assumes "observer_observation my_sg states = None"
  shows "scan_states my_sg rate_v now_val st states = Inr (None, st)"
  using assms
  by (induction states) (auto simp: observer_observation_def split: if_splits)

lemma observer_observation_in_set:
  "observer_observation my_sg states = Some ob \<Longrightarrow> ob \<in> set states"
  unfolding observer_observation_def by (rule find_Some_set)

lemma smooth_step_fields:
  assumes "smooth_step rate_v now_val st ob = Inr st1"
  shows "last_min_end st1 = minEndRaw ob \<and> last_ts st1 = last_ts st \<and> shown st1 = shown st"
  using assms unfolding smooth_step_def
  by (auto split: sum.splits option.splits if_splits prod.splits)

lemma decrement_in_range:
  assumes "0 \<le> s" and "s \<le> 60" and "0 \<le> d"
  shows "in_range (Some (py_max (Fin 0) (pyfloat_sub (Fin s) (Fin d))))"
proof -
  let ?r = "round_double (s - d)"
  have le: "?r \<le> 60" using assms by (intro round_double_le_60) simp
  then have nopinf: "\<not> 2 ^ 1024 \<le> ?r" by simp
  show ?thesis
  proof (cases "?r \<le> - (2 ^ 1024)")
    case True
    then have "pyfloat_sub (Fin s) (Fin d) = NInf"
      using nopinf by (simp add: float_sub_def to_pyfloat_def)
    then show ?thesis by (simp add: py_max_def in_range_def)
  next
    case False
    then have "pyfloat_sub (Fin s) (Fin d) = Fin ?r"
      using nopinf by (simp add: float_sub_def to_pyfloat_def)
    then show ?thesis using le by (simp add: py_max_def in_range_def)
  qed
qed

lemma smooth_step_in_range:
  assumes "in_range (simulated_rem st)" and "nominal_interval rate_v"
    and "clock_not_behind (last_ts st) now_val"
    and "smooth_step rate_v now_val st ob = Inr st1"
  shows "in_range (simulated_rem st1)"
proof -
  obtain rem_secs where d: "detect_unit_and_delta now_val (minEndRaw ob) = Inr rem_secs"
    using assms(4) by (auto simp: smooth_step_def split: sum.splits)
  have fresh: "in_range rem_secs" using d by (rule detect_unit_and_delta_in_range)
  show ?thesis
  proof (cases "simulated_rem st")
    case None
    then have "simulated_rem st1 = rem_secs" using assms(4) d
      by (auto simp: smooth_step_def)
    then show ?thesis using fresh by simp
  next
    case (Some sim)
    then obtain s where s: "sim = Fin s" "0 \<le> s" "s \<le> 60"
      using assms(1) by (cases sim) (simp_all add: in_range_def)
    obtain rt where rt: "rate_v = Fin rt" "0 \<le> rt"
      using assms(2) by (cases rate_v) (simp_all add: nominal_interval_def)
    show ?thesis
    proof (cases "minEndRaw ob = last_min_end st")
      case False
      then have "simulated_rem st1 = rem_secs" using assms(4) d Some
        by (auto simp: smooth_step_def)
      then show ?thesis using fresh by simp
    next
      case True
      show ?thesis
      proof (cases "\<exists>lt nv. last_ts st = Some lt \<and> now_val = Some nv")
        case True
        then obtain lt nv where c: "last_ts st = Some lt" "now_val = Some nv" by blast
        then have "lt \<le> nv" using assms(3) by (simp add: clock_not_behind_def)
        obtain dt where dt: "int_truediv (nv - lt) 10 = Inr dt"
          and r: "simulated_rem st1 = Some (py_max (Fin 0) (pyfloat_sub sim (Fin dt)))"
          using assms(4) d Some c \<open>minEndRaw ob = last_min_end st\<close>
          by (auto simp: smooth_step_def split: sum.splits)
        have "0 \<le> dt" using \<open>lt \<le> nv\<close> dt by (intro int_truediv_nonneg [of "nv - lt" 10]) simp_all
        then show ?thesis unfolding r s(1) using s(2,3) by (intro decrement_in_range)
      next
        case False
        then have "simulated_rem st1 = Some (py_max (Fin 0) (pyfloat_sub sim rate_v))"
          using assms(4) d Some \<open>minEndRaw ob = last_min_end st\<close>
          by (auto simp: smooth_step_def split: option.splits)
        moreover have "in_range (Some (py_max (Fin 0) (pyfloat_sub (Fin s) (Fin rt))))"
          using s(2,3) rt(2) by (rule decrement_in_range)
        ultimately show ?thesis unfolding s(1) rt(1) by (simp only:)
      qed
    qed
  qed
qed

text \<open>The pause of the default rate, and of the offline script's floor, is accepted.\<close>

lemma sleep_tenth: "py_sleep (Fin (round_double (1 / 10))) = None"
  by code_simp

lemma sleep_offline_rate:
  "py_sleep (py_max (Fin (round_double (1 / 20))) (rate example_config)) = None"
  unfolding example_config_def by code_simp

text \<open>A negative pause, and a pause of more than \<open>2\<^sup>6\<^sup>3\<close> nanoseconds, are refused.\<close>

lemma sleep_negative: "py_sleep (Fin (- 1)) = Some ValueError"
  by code_simp

lemma sleep_too_long: "py_sleep (Fin (10 ^ 10)) = Some OverflowError \<and> py_sleep PInf = Some OverflowError"
  by code_simp

lemma process_frame_skip:
  assumes "\<not> processed ts_paths_rate_sync blob"
    and "process_frame cfg a b my_sg st blob = (st', out, err)"
  shows "st' = st \<and> out = []"
  using assms
  by (auto simp: process_frame_def processed_def split: option.splits prod.splits sum.splits if_splits)

lemma processed_cases:
  assumes "processed ts_paths blob"
  obtains r iid now_val states where "blob = Some r"
    and "parse_spat ts_paths r = Inr (iid, now_val, states)" and "states \<noteq> []"
  using assms
  by (auto simp: processed_def split: option.splits sum.splits prod.splits)

lemma process_frame_raise:
  assumes "parse_spat ts_paths_rate_sync r = Inr (iid, now_val, states)" and "states \<noteq> []"
    and "scan_states my_sg (rate cfg) now_val st states = Inl e"
  shows "process_frame cfg a b my_sg st (Some r) = (st, [], Some e)"
  using assms by (simp add: process_frame_def)

lemma process_frame_shown:
  assumes "parse_spat ts_paths_rate_sync r = Inr (iid, now_val, states)" and "states \<noteq> []"
    and "scan_states my_sg (rate cfg) now_val st states = Inr (ev, st1)"
  shows "process_frame cfg a b my_sg st (Some r) =
              (case frame_delay cfg (last_ts st1) now_val of
                 Inl e \<Rightarrow> (st1, [DrawCard (frame_card cfg a b my_sg iid ev (simulated_rem st1))], Some e)
               | Inr delay \<Rightarrow>
                   (case py_sleep delay of
                      Some e \<Rightarrow> (st1\<lparr>last_ts := now_val\<rparr>,
                                 [DrawCard (frame_card cfg a b my_sg iid ev (simulated_rem st1))], Some e)
                    | None \<Rightarrow> (st1\<lparr>last_ts := now_val, shown := shown st1 + 1\<rparr>,
                               [DrawCard (frame_card cfg a b my_sg iid ev (simulated_rem st1)), Sleep delay],
                               None)))"
  using assms by (simp add: process_frame_def Let_def)

lemma process_frame_shown_cases:
  assumes "parse_spat ts_paths_rate_sync r = Inr (iid, now_val, states)" and "states \<noteq> []"
    and "scan_states my_sg (rate cfg) now_val st states = Inr (ev, st1)"
    and "process_frame cfg a b my_sg st (Some r) = (st', out, err)"
  shows "(st' = st1 \<and> out = [DrawCard (frame_card cfg a b my_sg iid ev (simulated_rem st1))] \<and> err \<noteq> None) \<or>
         (st' = st1\<lparr>last_ts := now_val\<rparr> \<and>
            out = [DrawCard (frame_card cfg a b my_sg iid ev (simulated_rem st1))] \<and> err \<noteq> None) \<or>
         (\<exists>delay. st' = st1\<lparr>last_ts := now_val, shown := shown st1 + 1\<rparr> \<and>
            out = [DrawCard (frame_card cfg a b my_sg iid ev (simulated_rem st1)), Sleep delay] \<and> err = None)"
  using assms(4) unfolding process_frame_shown [OF assms(1,2,3)]
  by (auto split: sum.splits option.splits)

lemma process_frame_state:
  assumes "parse_spat ts_paths_rate_sync r = Inr (iid, now_val, states)" and "states \<noteq> []"
    and "scan_states my_sg (rate cfg) now_val st states = Inr (ev, st1)"
  shows "simulated_rem (fst (process_frame cfg a b my_sg st (Some r))) = simulated_rem st1
       \<and> last_min_end (fst (process_frame cfg a b my_sg st (Some r))) = last_min_end st1"
proof -
  obtain st' out err where pf: "process_frame cfg a b my_sg st (Some r) = (st', out, err)"
    by (cases "process_frame cfg a b my_sg st (Some r)") auto
  from process_frame_shown_cases [OF assms pf] show ?thesis unfolding pf by auto
qed

lemma process_frame_counters:
  assumes "nonneg_opt (last_ts st) \<and> nonneg_opt (last_min_end st)"
    and "process_frame cfg a b my_sg st blob = (st', out, err)"
  shows "nonneg_opt (last_ts st') \<and> nonneg_opt (last_min_end st')"
proof (cases "processed ts_paths_rate_sync blob")
  case False
  then show ?thesis using assms process_frame_skip by blast
next
  case True
  then obtain r iid now_val states where r: "blob = Some r"
    and ps: "parse_spat ts_paths_rate_sync r = Inr (iid, now_val, states)" and ne: "states \<noteq> []"
    by (rule processed_cases)
  have dec: "nonneg_opt now_val \<and> (\<forall>ob \<in> set states. nonneg_opt (minEndRaw ob))"
    using ps by (rule parse_spat_nonneg)
  show ?thesis
  proof (cases "scan_states my_sg (rate cfg) now_val st states")
    case (Inl e)
    then show ?thesis using assms r ps ne by (simp add: process_frame_raise)
  next
    case (Inr p)
    obtain ev st1 where p: "p = (ev, st1)" by (cases p)
    have sc: "scan_states my_sg (rate cfg) now_val st states = Inr (ev, st1)"
      using Inr p by simp
    have st1: "nonneg_opt (last_ts st1) \<and> nonneg_opt (last_min_end st1)"
    proof -
      from scan_states_result [OF sc]
      have "st1 = st \<or> (\<exists>ob. observer_observation my_sg states = Some ob \<and>
               smooth_step (rate cfg) now_val st ob = Inr st1)" by auto
      then show ?thesis
      proof
        assume "st1 = st"
        then show ?thesis using assms(1) by simp
      next
        assume "\<exists>ob. observer_observation my_sg states = Some ob \<and>
               smooth_step (rate cfg) now_val st ob = Inr st1"
        then obtain ob where ob: "observer_observation my_sg states = Some ob"
          and ss: "smooth_step (rate cfg) now_val st ob = Inr st1" by blast
        have "ob \<in> set states" using ob by (rule observer_observation_in_set)
        then have "nonneg_opt (minEndRaw ob)" using dec by blast
        then show ?thesis using smooth_step_fields [OF ss] assms(1) by simp
      qed
    qed
    have "process_frame cfg a b my_sg st (Some r) = (st', out, err)"
      using assms(2) r by simp
    from process_frame_shown_cases [OF ps ne sc this]
    have "st' = st1 \<or> st' = st1\<lparr>last_ts := now_val\<rparr> \<or>
          st' = st1\<lparr>last_ts := now_val, shown := shown st1 + 1\<rparr>"
      by auto
    then show ?thesis using st1 dec by auto
  qed
qed

lemma frame_loop_counters:
  assumes "nonneg_opt (last_ts st) \<and> nonneg_opt (last_min_end st)"
    and "frame_loop cfg a b my_sg st blobs = (st', out, err)"
  shows "nonneg_opt (last_ts st') \<and> nonneg_opt (last_min_end st')"
  using assms
proof (induction blobs arbitrary: st st' out err)
  case Nil
  then show ?case by simp
next
  case (Cons blob blobs)
  obtain s1 o1 e1 where pf: "process_frame cfg a b my_sg st blob = (s1, o1, e1)"
    by (cases "process_frame cfg a b my_sg st blob") auto
  have inv1: "nonneg_opt (last_ts s1) \<and> nonneg_opt (last_min_end s1)"
    using Cons.prems(1) pf by (rule process_frame_counters)
  show ?case
  proof (cases e1)
    case (Some e)
    then have "st' = s1" using Cons.prems(2) pf by simp
    then show ?thesis using inv1 by simp
  next
    case None
    obtain s2 o2 e2 where fl: "frame_loop cfg a b my_sg s1 blobs = (s2, o2, e2)"
      by (cases "frame_loop cfg a b my_sg s1 blobs") auto
    then have "st' = s2" using Cons.prems(2) pf None by simp
    then show ?thesis using Cons.IH [OF inv1 fl] by simp
  qed
qed

lemma observer_observation_unmapped: "observer_observation None states = None"
  unfolding observer_observation_def by (induction states) simp_all

lemma offline_scan_states_unmapped: "offline_scan_states None now_val states = Inr (None, None)"
  by (induction states) simp_all

lemma red_frame_card: "red_without_seconds (DrawCard (frame_card cfg a b my_sg iid None None))"
  by (simp add: red_without_seconds_def frame_card_def)

text \<open>
  With an absent signal group no observation matches, the countdown state stays empty,
  and the card of a processed block is red without seconds; it is drawn before the
  pause is computed and taken.
\<close>

lemma process_frame_unmapped:
  assumes "simulated_rem st = None"
    and "process_frame cfg a b None st blob = (st', out, err)"
  shows "simulated_rem st' = None \<and> list_all red_without_seconds out \<and> (\<forall>m. Print m \<notin> set out) \<and>
         (processed ts_paths_rate_sync blob \<longrightarrow> (\<exists>c rest. out = DrawCard c # rest))"
proof (cases "processed ts_paths_rate_sync blob")
  case False
  then show ?thesis using assms process_frame_skip by fastforce
next
  case True
  then obtain r iid now_val states where r: "blob = Some r"
    and ps: "parse_spat ts_paths_rate_sync r = Inr (iid, now_val, states)" and ne: "states \<noteq> []"
    by (rule processed_cases)
  have sc: "scan_states None (rate cfg) now_val st states = Inr (None, st)"
    using observer_observation_unmapped by (rule scan_states_not_found)
  have pf: "process_frame cfg a b None st (Some r) = (st', out, err)"
    using assms(2) r by simp
  from process_frame_shown_cases [OF ps ne sc pf] show ?thesis
    using assms(1) red_frame_card [of cfg a b None iid]
    by (auto simp: red_without_seconds_def)
qed

lemma frame_loop_unmapped:
  assumes "simulated_rem st = None"
    and "frame_loop cfg a b None st blobs = (st', out, err)"
  shows "simulated_rem st' = None \<and> list_all red_without_seconds out \<and> (\<forall>m. Print m \<notin> set out)"
  using assms
proof (induction blobs arbitrary: st st' out err)
  case Nil
  then show ?case by simp
next
  case (Cons blob blobs)
  obtain s1 o1 e1 where pf: "process_frame cfg a b None st blob = (s1, o1, e1)"
    by (cases "process_frame cfg a b None st blob") auto
  note one = process_frame_unmapped [OF Cons.prems(1) pf]
  show ?case
  proof (cases e1)
    case (Some e)
    then have "st' = s1 \<and> out = o1" using Cons.prems(2) pf by simp
    then show ?thesis using one by simp
  next
    case None
    obtain s2 o2 e2 where fl: "frame_loop cfg a b None s1 blobs = (s2, o2, e2)"
      by (cases "frame_loop cfg a b None s1 blobs") auto
    have s1: "simulated_rem s1 = None" using one by simp
    note rest = Cons.IH [OF s1 fl]
    have "st' = s2 \<and> out = o1 @ o2" using Cons.prems(2) pf None fl by simp
    then show ?thesis using one rest by simp
  qed
qed

text \<open>The loop over a list of blocks that starts with blocks that raise nothing.\<close>

lemma frame_loop_append:
  assumes "frame_loop cfg a b my_sg st pre = (st1, out_pre, None)"
  shows "frame_loop cfg a b my_sg st (pre @ blobs) =
           (case frame_loop cfg a b my_sg st1 blobs of (st2, out, err) \<Rightarrow> (st2, out_pre @ out, err))"
  using assms
proof (induction pre arbitrary: st out_pre)
  case Nil
  then show ?case by (simp split: prod.splits)
next
  case (Cons blob pre)
  obtain s1 o1 e1 where pf: "process_frame cfg a b my_sg st blob = (s1, o1, e1)"
    by (cases "process_frame cfg a b my_sg st blob") auto
  have e1: "e1 = None" using Cons.prems pf by (cases e1) simp_all
  obtain s2 o2 e2 where fl: "frame_loop cfg a b my_sg s1 pre = (s2, o2, e2)"
    by (cases "frame_loop cfg a b my_sg s1 pre") auto
  have "s2 = st1 \<and> out_pre = o1 @ o2 \<and> e2 = None" using Cons.prems pf e1 fl by simp
  then have "frame_loop cfg a b my_sg s1 (pre @ blobs) =
           (case frame_loop cfg a b my_sg st1 blobs of (st2, out, err) \<Rightarrow> (st2, o2 @ out, err))"
    using Cons.IH [of s1 o2] fl by simp
  then show ?case using pf e1 \<open>s2 = st1 \<and> out_pre = o1 @ o2 \<and> e2 = None\<close>
    by (simp split: prod.splits)
qed

lemma frame_loop_head:
  "\<exists>st' rest err. frame_loop cfg a b my_sg st (blob # blobs) =
       (st', fst (snd (process_frame cfg a b my_sg st blob)) @ rest, err)"
  by (auto split: prod.splits option.splits)

lemma frame_loop_unmapped_presented:
  assumes "frame_loop cfg a b None initial_state pre = (st, out_pre, None)"
    and "processed ts_paths_rate_sync blob"
  shows "\<exists>c rest. fst (snd (frame_loop cfg a b None initial_state (pre @ blob # post))) =
           out_pre @ DrawCard c # rest"
proof -
  have "simulated_rem initial_state = None" by (simp add: initial_state_def)
  then have st: "simulated_rem st = None"
    using assms(1) frame_loop_unmapped by blast
  obtain s1 o1 e1 where pf: "process_frame cfg a b None st blob = (s1, o1, e1)"
    by (cases "process_frame cfg a b None st blob") auto
  from process_frame_unmapped [OF st pf] assms(2)
  obtain c r1 where o1: "o1 = DrawCard c # r1" by blast
  obtain st' r2 err where "frame_loop cfg a b None st (blob # post) = (st', o1 @ r2, err)"
    using frame_loop_head [of cfg a b None st blob post] pf by auto
  then have "fst (snd (frame_loop cfg a b None initial_state (pre @ blob # post))) =
          out_pre @ o1 @ r2"
    by (simp add: frame_loop_append [OF assms(1)])
  then show ?thesis using o1 by simp
qed

lemma main_loop_output:
  assumes "parse_map md = (iid, iname, lanes)" and "map_of lanes (lane cfg) = Some my_sg"
    and "spat_blocks \<noteq> []"
  shows "\<exists>tl. fst (main cfg (Some md # mbs) spat_blocks) =
            fst (snd (frame_loop cfg iid iname my_sg initial_state spat_blocks)) @ tl \<and>
            (tl = [] \<or> tl = [Print NoneReferencedSignalGroup])"
  using assms by (auto simp: main_def split: prod.splits option.splits)

lemma main_unmapped:
  assumes "parse_map md = (iid, iname, lanes)" and "map_of lanes (lane cfg) = Some None"
  shows "list_all red_without_seconds (fst (main cfg (Some md # mbs) spat_blocks)) \<and>
         (\<forall>l ks. Print (LaneNotFound l ks) \<notin> set (fst (main cfg (Some md # mbs) spat_blocks)))"
proof (cases "spat_blocks = []")
  case True
  then have "main cfg (Some md # mbs) spat_blocks = ([Print NoSpat], None)"
    using assms by (simp add: main_def)
  then show ?thesis by (simp add: red_without_seconds_def)
next
  case False
  obtain st out err where fl: "frame_loop cfg iid iname None initial_state spat_blocks = (st, out, err)"
    by (cases "frame_loop cfg iid iname None initial_state spat_blocks") auto
  have "simulated_rem initial_state = None" by (simp add: initial_state_def)
  note m = frame_loop_unmapped [OF this fl]
  from main_loop_output [OF assms False, of mbs] fl
  obtain tl where "fst (main cfg (Some md # mbs) spat_blocks) = out @ tl"
    and "tl = [] \<or> tl = [Print NoneReferencedSignalGroup]" by auto
  then show ?thesis using m by (auto simp: red_without_seconds_def)
qed

lemma main_unmapped_presented:
  assumes "parse_map md = (iid, iname, lanes)" and "map_of lanes (lane cfg) = Some None"
    and "frame_loop cfg iid iname None initial_state pre = (st, out_pre, None)"
    and "processed ts_paths_rate_sync blob"
  shows "\<exists>c rest. fst (main cfg (Some md # mbs) (pre @ blob # post)) = out_pre @ DrawCard c # rest"
proof -
  have ne: "pre @ blob # post \<noteq> []" by simp
  from main_loop_output [OF assms(1,2) ne, of mbs]
  obtain tl where m: "fst (main cfg (Some md # mbs) (pre @ blob # post)) =
            fst (snd (frame_loop cfg iid iname None initial_state (pre @ blob # post))) @ tl" by blast
  from frame_loop_unmapped_presented [OF assms(3,4), of post]
  obtain c rest where "fst (snd (frame_loop cfg iid iname None initial_state (pre @ blob # post))) =
           out_pre @ DrawCard c # rest" by blast
  then have "fst (main cfg (Some md # mbs) (pre @ blob # post)) = out_pre @ DrawCard c # (rest @ tl)"
    using m by simp
  then show ?thesis by blast
qed

text \<open>The same for the offline script.\<close>

lemma offline_process_frame_unmapped:
  assumes "offline_process_frame cfg a b None n blob = (n', out, err)"
  shows "list_all red_without_seconds out \<and> (\<forall>m. Print m \<notin> set out) \<and>
         (processed ts_paths_offline blob \<longrightarrow> (\<exists>c rest. out = DrawCard c # rest))"
  using assms
  by (auto simp: offline_process_frame_def offline_scan_states_unmapped processed_def Let_def
      red_without_seconds_def offline_card_def split: option.splits prod.splits if_splits sum.splits)

lemma offline_frame_loop_unmapped:
  assumes "offline_frame_loop cfg a b None n blobs = (n', out, err)"
  shows "list_all red_without_seconds out \<and> (\<forall>m. Print m \<notin> set out)"
  using assms
proof (induction blobs arbitrary: n n' out err)
  case Nil
  then show ?case by simp
next
  case (Cons blob blobs)
  obtain n1 o1 e1 where pf: "offline_process_frame cfg a b None n blob = (n1, o1, e1)"
    by (cases "offline_process_frame cfg a b None n blob") auto
  note one = offline_process_frame_unmapped [OF pf]
  show ?case
  proof (cases e1)
    case (Some e)
    then have "out = o1" using Cons.prems pf by simp
    then show ?thesis using one by simp
  next
    case None
    obtain n2 o2 e2 where fl: "offline_frame_loop cfg a b None n1 blobs = (n2, o2, e2)"
      by (cases "offline_frame_loop cfg a b None n1 blobs") auto
    note rest = Cons.IH [OF fl]
    have "out = o1 @ o2" using Cons.prems pf None fl by simp
    then show ?thesis using one rest by simp
  qed
qed

lemma offline_frame_loop_append:
  assumes "offline_frame_loop cfg a b my_sg n pre = (n1, out_pre, None)"
  shows "offline_frame_loop cfg a b my_sg n (pre @ blobs) =
           (case offline_frame_loop cfg a b my_sg n1 blobs of (n2, out, err) \<Rightarrow> (n2, out_pre @ out, err))"
  using assms
proof (induction pre arbitrary: n out_pre)
  case Nil
  then show ?case by (simp split: prod.splits)
next
  case (Cons blob pre)
  obtain s1 o1 e1 where pf: "offline_process_frame cfg a b my_sg n blob = (s1, o1, e1)"
    by (cases "offline_process_frame cfg a b my_sg n blob") auto
  have e1: "e1 = None" using Cons.prems pf by (cases e1) simp_all
  obtain s2 o2 e2 where fl: "offline_frame_loop cfg a b my_sg s1 pre = (s2, o2, e2)"
    by (cases "offline_frame_loop cfg a b my_sg s1 pre") auto
  have eq: "s2 = n1 \<and> out_pre = o1 @ o2 \<and> e2 = None" using Cons.prems pf e1 fl by simp
  then have "offline_frame_loop cfg a b my_sg s1 (pre @ blobs) =
           (case offline_frame_loop cfg a b my_sg n1 blobs of (n2, out, err) \<Rightarrow> (n2, o2 @ out, err))"
    using Cons.IH [of s1 o2] fl by simp
  then show ?case using pf e1 eq by (simp split: prod.splits)
qed

lemma offline_frame_loop_head:
  "\<exists>n' rest err. offline_frame_loop cfg a b my_sg n (blob # blobs) =
       (n', fst (snd (offline_process_frame cfg a b my_sg n blob)) @ rest, err)"
  by (auto split: prod.splits option.splits)

lemma offline_main_loop_output:
  assumes "parse_map md = (iid, iname, lanes)" and "map_of lanes (lane cfg) = Some my_sg"
    and "spat_blocks \<noteq> []"
  shows "\<exists>tl. fst (offline_main cfg (Some md # mbs) spat_blocks) =
            fst (snd (offline_frame_loop cfg iid iname my_sg 0 spat_blocks)) @ tl \<and>
            (tl = [] \<or> tl = [Print NoneReferencedSignalGroup])"
  using assms by (auto simp: offline_main_def split: prod.splits option.splits)

lemma offline_main_unmapped:
  assumes "parse_map md = (iid, iname, lanes)" and "map_of lanes (lane cfg) = Some None"
  shows "list_all red_without_seconds (fst (offline_main cfg (Some md # mbs) spat_blocks)) \<and>
         (\<forall>l ks. Print (LaneNotFound l ks) \<notin> set (fst (offline_main cfg (Some md # mbs) spat_blocks)))"
proof (cases "spat_blocks = []")
  case True
  then have "offline_main cfg (Some md # mbs) spat_blocks = ([Print NoSpat], None)"
    using assms by (simp add: offline_main_def)
  then show ?thesis by (simp add: red_without_seconds_def)
next
  case False
  obtain n out err where fl: "offline_frame_loop cfg iid iname None 0 spat_blocks = (n, out, err)"
    by (cases "offline_frame_loop cfg iid iname None 0 spat_blocks") auto
  note m = offline_frame_loop_unmapped [OF fl]
  from offline_main_loop_output [OF assms False, of mbs] fl
  obtain tl where "fst (offline_main cfg (Some md # mbs) spat_blocks) = out @ tl"
    and "tl = [] \<or> tl = [Print NoneReferencedSignalGroup]" by auto
  then show ?thesis using m by (auto simp: red_without_seconds_def)
qed

lemma offline_main_unmapped_presented:
  assumes "parse_map md = (iid, iname, lanes)" and "map_of lanes (lane cfg) = Some None"
    and "offline_frame_loop cfg iid iname None 0 pre = (n, out_pre, None)"
    and "processed ts_paths_offline blob"
  shows "\<exists>c rest. fst (offline_main cfg (Some md # mbs) (pre @ blob # post)) = out_pre @ DrawCard c # rest"
proof -
  have ne: "pre @ blob # post \<noteq> []" by simp
  from offline_main_loop_output [OF assms(1,2) ne, of mbs]
  obtain tl where m: "fst (offline_main cfg (Some md # mbs) (pre @ blob # post)) =
            fst (snd (offline_frame_loop cfg iid iname None 0 (pre @ blob # post))) @ tl" by blast
  obtain s1 o1 e1 where pf: "offline_process_frame cfg iid iname None n blob = (s1, o1, e1)"
    by (cases "offline_process_frame cfg iid iname None n blob") auto
  from offline_process_frame_unmapped [OF pf] assms(4)
  obtain c r1 where o1: "o1 = DrawCard c # r1" by blast
  obtain n' r2 err where "offline_frame_loop cfg iid iname None n (blob # post) = (n', o1 @ r2, err)"
    using offline_frame_loop_head [of cfg iid iname None n blob post] pf by auto
  then have "fst (snd (offline_frame_loop cfg iid iname None 0 (pre @ blob # post))) = out_pre @ o1 @ r2"
    by (simp add: offline_frame_loop_append [OF assms(3)])
  then have "fst (offline_main cfg (Some md # mbs) (pre @ blob # post)) =
      out_pre @ DrawCard c # (r1 @ r2 @ tl)"
    using m o1 by simp
  then show ?thesis by blast
qed

text \<open>
  \<^verbatim>\<open>shown\<close> counts the processed blocks, so the final report is printed exactly when no
  block was processed.
\<close>

lemma process_frame_shown_count:
  assumes "process_frame cfg a b my_sg st blob = (st', out, None)"
  shows "shown st' = shown st + length (filter (processed ts_paths_rate_sync) [blob])"
proof (cases "processed ts_paths_rate_sync blob")
  case False
  then show ?thesis using assms process_frame_skip by fastforce
next
  case True
  then obtain r iid now_val states where r: "blob = Some r"
    and ps: "parse_spat ts_paths_rate_sync r = Inr (iid, now_val, states)" and ne: "states \<noteq> []"
    by (rule processed_cases)
  have pf: "process_frame cfg a b my_sg st (Some r) = (st', out, None)"
    using assms r by simp
  show ?thesis
  proof (cases "scan_states my_sg (rate cfg) now_val st states")
    case (Inl e)
    then show ?thesis using pf ps ne by (simp add: process_frame_raise)
  next
    case (Inr p)
    obtain ev st1 where p: "p = (ev, st1)" by (cases p)
    have sc: "scan_states my_sg (rate cfg) now_val st states = Inr (ev, st1)"
      using Inr p by simp
    have st': "st' = st1\<lparr>last_ts := now_val, shown := shown st1 + 1\<rparr>"
      using process_frame_shown_cases [OF ps ne sc pf] by auto
    have "shown st1 = shown st"
      using scan_states_result [OF sc] smooth_step_fields by blast
    then show ?thesis using st' True by simp
  qed
qed

lemma frame_loop_shown_count:
  assumes "frame_loop cfg a b my_sg st blobs = (st', out, None)"
  shows "shown st' = shown st + length (filter (processed ts_paths_rate_sync) blobs)"
  using assms
proof (induction blobs arbitrary: st st' out)
  case Nil
  then show ?case by simp
next
  case (Cons blob blobs)
  obtain s1 o1 e1 where pf: "process_frame cfg a b my_sg st blob = (s1, o1, e1)"
    by (cases "process_frame cfg a b my_sg st blob") auto
  show ?case
  proof (cases e1)
    case (Some e)
    then show ?thesis using Cons.prems pf by simp
  next
    case None
    obtain s2 o2 e2 where fl: "frame_loop cfg a b my_sg s1 blobs = (s2, o2, e2)"
      by (cases "frame_loop cfg a b my_sg s1 blobs") auto
    have "e2 = None \<and> st' = s2" using Cons.prems pf None fl by simp
    then have "shown st' = shown s1 + length (filter (processed ts_paths_rate_sync) blobs)"
      using Cons.IH [of s1 s2 o2] fl by simp
    moreover have "shown s1 = shown st + length (filter (processed ts_paths_rate_sync) [blob])"
      using pf None by (intro process_frame_shown_count) simp
    ultimately show ?thesis by simp
  qed
qed

lemma process_frame_no_print:
  assumes "process_frame cfg a b my_sg st blob = (st', out, err)"
  shows "\<forall>m. Print m \<notin> set out"
proof (cases "processed ts_paths_rate_sync blob")
  case False
  then show ?thesis using assms process_frame_skip by fastforce
next
  case True
  then obtain r iid now_val states where r: "blob = Some r"
    and ps: "parse_spat ts_paths_rate_sync r = Inr (iid, now_val, states)" and ne: "states \<noteq> []"
    by (rule processed_cases)
  have pf: "process_frame cfg a b my_sg st (Some r) = (st', out, err)"
    using assms r by simp
  show ?thesis
  proof (cases "scan_states my_sg (rate cfg) now_val st states")
    case (Inl e)
    then show ?thesis using pf ps ne by (simp add: process_frame_raise)
  next
    case (Inr p)
    obtain ev st1 where p: "p = (ev, st1)" by (cases p)
    have sc: "scan_states my_sg (rate cfg) now_val st states = Inr (ev, st1)"
      using Inr p by simp
    show ?thesis
      using process_frame_shown_cases [OF ps ne sc pf] by auto
  qed
qed

lemma frame_loop_no_print:
  assumes "frame_loop cfg a b my_sg st blobs = (st', out, err)"
  shows "\<forall>m. Print m \<notin> set out"
  using assms
proof (induction blobs arbitrary: st st' out err)
  case Nil
  then show ?case by simp
next
  case (Cons blob blobs)
  obtain s1 o1 e1 where pf: "process_frame cfg a b my_sg st blob = (s1, o1, e1)"
    by (cases "process_frame cfg a b my_sg st blob") auto
  note one = process_frame_no_print [OF pf]
  show ?case
  proof (cases e1)
    case (Some e)
    then have "out = o1" using Cons.prems pf by simp
    then show ?thesis using one by simp
  next
    case None
    obtain s2 o2 e2 where fl: "frame_loop cfg a b my_sg s1 blobs = (s2, o2, e2)"
      by (cases "frame_loop cfg a b my_sg s1 blobs") auto
    have "out = o1 @ o2" using Cons.prems pf None fl by simp
    then show ?thesis using one Cons.IH [OF fl] by simp
  qed
qed

lemma main_report_iff:
  assumes "parse_map md = (iid, iname, lanes)" and "map_of lanes (lane cfg) = Some my_sg"
    and "spat_blocks \<noteq> []" and "main cfg (Some md # mbs) spat_blocks = (out, None)"
  shows "Print NoneReferencedSignalGroup \<in> set out \<longleftrightarrow>
         filter (processed ts_paths_rate_sync) spat_blocks = []"
proof -
  obtain st o1 e1 where fl: "frame_loop cfg iid iname my_sg initial_state spat_blocks = (st, o1, e1)"
    by (cases "frame_loop cfg iid iname my_sg initial_state spat_blocks") auto
  have e1: "e1 = None" using assms fl by (cases e1) (simp_all add: main_def)
  have out: "out = o1 @ (if shown st = 0 then [Print NoneReferencedSignalGroup] else [])"
    using assms fl e1 by (simp add: main_def)
  have cnt: "shown st = length (filter (processed ts_paths_rate_sync) spat_blocks)"
    using frame_loop_shown_count [of cfg iid iname my_sg initial_state spat_blocks st o1] fl e1
    by (simp add: initial_state_def)
  have "Print NoneReferencedSignalGroup \<notin> set o1"
    using frame_loop_no_print [OF fl] by blast
  then show ?thesis using out cnt by auto
qed

lemma lane_example_config: "lane example_config = 5"
  by (simp add: example_config_def)

lemma rate_example_config: "nominal_interval (rate example_config)"
  by (simp add: example_config_def nominal_interval_def round_double_nonneg)

lemma frame_59000:
  "process_frame example_config (Some ''12'') None (Some 2) initial_state (Some (stop_frame ''59000'' ''2'' ''50'')) =
     (running_state,
      [DrawCard (frame_card example_config (Some ''12'') None (Some 2) None (Some ''stop-And-Remain'') (Some (Fin 6))),
       Sleep (rate example_config)], None)"
  by (simp add: process_frame_def parse_stop_frame_59000 smooth_step_def detect_59000_50
      initial_state_def running_state_def frame_delay_def example_config_def sleep_tenth)

lemma frame_0:
  "process_frame example_config (Some ''12'') None (Some 2) running_state (Some (stop_frame ''0'' ''2'' ''50'')) =
     (\<lparr>last_min_end = Some 50, simulated_rem = Some (Fin 5906), last_ts = Some 0, shown = 2\<rparr>,
      [DrawCard (frame_card example_config (Some ''12'') None (Some 2) None (Some ''stop-And-Remain'') (Some (Fin 5906))),
       Sleep (rate example_config)], None)"
  by (simp add: process_frame_def parse_stop_frame_0 smooth_step_def detect_0_50
      running_state_def frame_delay_def example_config_def int_truediv_exact eval_div_wrap
      eval_sub_wrap to_pyfloat_finite py_max_def sleep_tenth)

lemma frame_other:
  "process_frame example_config (Some ''12'') None (Some 2) running_state (Some (stop_frame ''59100'' ''3'' ''77'')) =
     (\<lparr>last_min_end = Some 50, simulated_rem = Some (Fin 6), last_ts = Some 59100, shown = 2\<rparr>,
      [DrawCard (frame_card example_config (Some ''12'') None (Some 2) None None (Some (Fin 6))),
       Sleep (rate example_config)], None)"
  by (simp add: process_frame_def parse_other_frame running_state_def frame_delay_def example_config_def sleep_tenth)

lemma frame_other_initial:
  "process_frame example_config (Some ''12'') None (Some 2) initial_state (Some (stop_frame ''59100'' ''3'' ''77'')) =
     (\<lparr>last_min_end = None, simulated_rem = None, last_ts = Some 59100, shown = 1\<rparr>,
      [DrawCard (frame_card example_config (Some ''12'') None (Some 2) None None None),
       Sleep (rate example_config)], None)"
  by (simp add: process_frame_def parse_other_frame initial_state_def frame_delay_def example_config_def sleep_tenth)

lemma offline_frame_other:
  "offline_process_frame example_config (Some ''12'') None (Some 2) 0 (Some (stop_frame ''59100'' ''3'' ''77'')) =
     (1,
      [DrawCard \<lparr>approach_name = None, inter_id = Some ''12'', lane_id = 5, card_sg = Some 2,
                 cur_color = ''red'', secs_remaining = None, clear_enabled = True\<rparr>,
       Sleep (py_max (Fin (round_double (1 / 20))) (rate example_config))], None)"
  by (simp add: offline_process_frame_def parse_other_frame_offline lane_example_config or_text_def
      offline_card_def sleep_offline_rate)

text \<open>
  The run ends where a library call raises: with \<^verbatim>\<open>--rate -1\<close> at the first pause, after
  the first card; with a timestamp that \<^verbatim>\<open>int\<close> rejects, at the decoding of that frame.
\<close>

lemma main_negative_rate:
  "main (example_config\<lparr>rate := Fin (- 1)\<rparr>) [Some example_map]
     [Some (stop_frame ''59000'' ''2'' ''50''), Some (stop_frame ''59500'' ''2'' ''50'')] =
     ([DrawCard (frame_card (example_config\<lparr>rate := Fin (- 1)\<rparr>) (Some ''12'') None (Some 2) None
          (Some ''stop-And-Remain'') (Some (Fin 6)))],
      Some ValueError)"
  by (simp add: main_def parse_example_map lane_example_config process_frame_def parse_stop_frame_59000
      smooth_step_def detect_59000_50 initial_state_def frame_delay_def example_config_def sleep_negative)

lemma main_superscript_frame:
  "main example_config [Some example_map]
     [Some (stop_frame [CHR 0xB2] ''2'' ''50''), Some (stop_frame ''59500'' ''2'' ''50'')] =
     ([], Some ValueError) \<and>
   offline_main example_config [Some example_map]
     [Some (stop_frame [CHR 0xB2] ''2'' ''50''), Some (stop_frame ''59500'' ''2'' ''50'')] =
     ([], Some ValueError)"
  by (simp add: main_def offline_main_def parse_example_map lane_example_config process_frame_def
      offline_process_frame_def parse_superscript_frame)

lemma lane_unmapped_sync_config: "lane unmapped_sync_config = 9"
  by (simp add: unmapped_sync_config_def)

lemma frame_unmapped_0:
  "process_frame unmapped_sync_config (Some ''12'') None None initial_state (Some (stop_frame ''0'' ''2'' ''50'')) =
     (\<lparr>last_min_end = None, simulated_rem = None, last_ts = Some 0, shown = 1\<rparr>,
      [DrawCard (frame_card unmapped_sync_config (Some ''12'') None None None None None),
       Sleep (rate unmapped_sync_config)], None)"
  by (simp add: process_frame_def parse_stop_frame_0 initial_state_def frame_delay_def
      unmapped_sync_config_def sleep_tenth)

lemma frame_unmapped_far:
  "process_frame unmapped_sync_config (Some ''12'') None None
       \<lparr>last_min_end = None, simulated_rem = None, last_ts = Some 0, shown = Suc 0\<rparr>
       (Some (stop_frame far_now ''2'' ''50'')) =
     (\<lparr>last_min_end = None, simulated_rem = None, last_ts = Some 0, shown = Suc 0\<rparr>,
      [DrawCard (frame_card unmapped_sync_config (Some ''12'') None None None None None)],
      Some OverflowError)"
  by (simp add: process_frame_def parse_stop_frame_far frame_delay_def int_truediv_def
      float_of_int_too_large unmapped_sync_config_def)

section \<open>The resolver's primary hypothesis (claims C1 and C2)\<close>

text \<open>
  Claim C1, as the code has it. For non-negative counters that \<^verbatim>\<open>float\<close> can convert (at
  most the largest finite float), \<^verbatim>\<open>detect_unit_and_delta\<close> returns the value of the primary
  hypothesis, \<^verbatim>\<open>((met / 10.0) % 60.0 - (now / 1000.0) % 60.0) % 60.0\<close> in float arithmetic.
  That value lies in the closed interval from 0 to 60, the range the guard
  \<^verbatim>\<open>0.0 <= remaining <= 60.0\<close> accepts, so the fallback hypotheses are not evaluated.
\<close>

theorem detect_unit_and_delta_primary_accepted:
  assumes "0 \<le> now_val" and "now_val \<le> dbl_max" and "0 \<le> met_val" and "met_val \<le> dbl_max"
  shows "\<exists>r. primary_remaining now_val met_val = Inr r \<and> 0 \<le> r \<and> r \<le> 60 \<and>
             detect_unit_and_delta (Some now_val) (Some met_val) = Inr (Some (Fin r))"
proof -
  obtain a where a: "float_of_int now_val = Inr a"
    using float_of_int_finite [of now_val] assms(1,2) by (auto simp: dbl_max_def)
  obtain b where b: "float_of_int met_val = Inr b"
    using float_of_int_finite [of met_val] assms(3,4) by (auto simp: dbl_max_def)
  let ?r = "float_rem (float_sub (float_rem (float_div b 10) 60) (float_rem (float_div a 1000) 60)) 60"
  have p: "primary_remaining now_val met_val = Inr ?r"
    using a b by (simp add: primary_remaining_def int_truediv_def)
  have range: "0 \<le> ?r \<and> ?r \<le> 60" by (rule float_rem_60_range)
  then have "detect_unit_and_delta (Some now_val) (Some met_val) = Inr (Some (Fin ?r))"
    using p by (simp add: detect_unit_and_delta_def)
  then show ?thesis using p range by blast
qed

theorem detect_unit_and_delta_primary_accepted_witness:
  "(0::int) \<le> 58000 \<and> 58000 \<le> dbl_max \<and> (0::int) \<le> 50 \<and> 50 \<le> dbl_max \<and>
   (\<exists>r. primary_remaining 58000 50 = Inr r \<and> 0 \<le> r \<and> r \<le> 60 \<and>
        detect_unit_and_delta (Some 58000) (Some 50) = Inr (Some (Fin r)))"
  using detect_unit_and_delta_primary_accepted [of 58000 50] by (simp add: dbl_max_def)

text \<open>
  The upper end is reached, so the value is not always below 60: with \<open>now = 60100\<close> and
  \<open>phase_end_raw = 1\<close> the two seconds values are \<open>0.10000000000000142\<close> and \<open>0.1\<close>, their
  difference is about \<open>-1.4e-15\<close>, and adding \<open>60.0\<close> to it rounds to \<open>60.0\<close>.
\<close>

theorem detect_unit_and_delta_reaches_60:
  "detect_unit_and_delta (Some 60100) (Some 1) = Inr (Some (Fin 60)) \<and> \<not> (60::rat) < 60"
  using detect_60100_1 by simp

text \<open>
  Claim C2, amended: for \<open>X\<close> a non-negative multiple of 20000 below \<open>2\<^sup>5\<^sup>3\<close>, in particular
  for \<open>X = 0\<close>, the resolver applied to \<open>now = X\<close> and \<open>phase_end_raw = X\<close> yields exactly
  0.0 seconds.
\<close>

theorem detect_unit_and_delta_identity_multiples:
  assumes "0 \<le> k" and "20000 * k < 2 ^ 53"
  shows "detect_unit_and_delta (Some (20000 * k)) (Some (20000 * k)) = Inr (Some (Fin 0))"
proof -
  let ?X = "20000 * k"
  have X: "round_double (of_int ?X) = of_int ?X"
    using assms by (intro round_double_of_int) simp_all
  have "\<bar>?X\<bar> < 2 ^ 53" using assms by simp
  then have "(of_int \<bar>?X\<bar> :: rat) < of_int (2 ^ 53)" by (simp only: of_int_less_iff)
  then have "\<bar>of_int ?X :: rat\<bar> < of_int (2 ^ 53)" by (simp only: of_int_abs)
  then have "\<not> 2 ^ 1024 \<le> \<bar>of_int ?X :: rat\<bar>" by simp
  then have f: "float_of_int ?X = Inr (of_int ?X)"
    using X by (simp add: float_of_int_def Let_def)
  have d1: "float_div (of_int ?X) 1000 = of_int (20 * k)"
  proof -
    have "(of_int ?X :: rat) / 1000 = of_int (20 * k)" by simp
    moreover have "round_double (of_int (20 * k)) = of_int (20 * k)"
      using assms by (intro round_double_of_int) simp_all
    ultimately show ?thesis by (simp only: float_div_def)
  qed
  have d2: "float_div (of_int ?X) 10 = of_int (2000 * k)"
  proof -
    have "(of_int ?X :: rat) / 10 = of_int (2000 * k)" by simp
    moreover have "round_double (of_int (2000 * k)) = of_int (2000 * k)"
      using assms by (intro round_double_of_int) simp_all
    ultimately show ?thesis by (simp only: float_div_def)
  qed
  have m: "(2000 * k) mod 60 = (20 * k) mod 60"
  proof -
    have "2000 * k = 20 * k + 60 * (33 * k)" by simp
    then show ?thesis by (metis mod_mult_self2)
  qed
  have r1: "float_rem (of_int (20 * k)) 60 = of_int ((20 * k) mod 60)"
    using assms(1) by (intro float_rem_60_of_int) simp
  have r2: "float_rem (of_int (2000 * k)) 60 = of_int ((20 * k) mod 60)"
    using assms(1) float_rem_60_of_int [of "2000 * k"] by (simp only: m)
  have t1: "int_truediv ?X 1000 = Inr (of_int (20 * k))"
    by (simp only: int_truediv_def f d1 sum.case)
  have t2: "int_truediv ?X 10 = Inr (of_int (2000 * k))"
    by (simp only: int_truediv_def f d2 sum.case)
  have s: "float_sub (of_int ((20 * k) mod 60)) (of_int ((20 * k) mod 60)) = 0"
    by (simp add: float_sub_def round_double_def)
  have z: "float_rem 0 60 = 0"
    by (simp add: float_rem_def c_fmod_def)
  have p: "primary_remaining ?X ?X = Inr 0"
    by (simp only: primary_remaining_def t1 t2 sum.case Let_def r1 r2 s z)
  show ?thesis by (simp add: detect_unit_and_delta_def p)
qed

theorem detect_unit_and_delta_identity_multiples_witness:
  "(0::int) \<le> 3 \<and> (20000::int) * 3 < 2 ^ 53 \<and>
   detect_unit_and_delta (Some (20000 * 3)) (Some (20000 * 3)) = Inr (Some (Fin 0))"
  using detect_unit_and_delta_identity_multiples [of 3] by simp

text \<open>
  Claim C2 does not hold for every \<open>X\<close>: the primary hypothesis reads the one number as
  milliseconds for \<open>now\<close> and as tenths of a second for \<open>phase_end_raw\<close>, so \<open>X = 10\<close> is
  0.01 s against 1.0 s and the result is 0.99.
\<close>

theorem detect_unit_and_delta_identity_counterexample:
  "detect_unit_and_delta (Some 10) (Some 10) =
     Inr (Some (Fin (4458563631096791 / 4503599627370496))) \<and>
   detect_unit_and_delta (Some 10) (Some 10) \<noteq> Inr (Some (Fin 0))"
  using detect_10_10 by simp

section \<open>The countdown (claims C3 to C6)\<close>

text \<open>
  Claim C3 says that over frames with the same \<open>phase_end_raw\<close> the simulated value never
  increases. The code subtracts the difference of the two now counters whatever its sign,
  so a now counter that wraps (59000, then 0) raises the value: lane 5 under signal
  group 2, two frames with phase end 50, and the cards show 6.0 and then 5906.0 seconds.
\<close>

theorem countdown_jumps_when_clock_wraps:
  "card_seconds (fst (main example_config [Some example_map]
       [Some (stop_frame ''59000'' ''2'' ''50''), Some (stop_frame ''0'' ''2'' ''50'')])) =
     [Some (Fin 6), Some (Fin 5906)]"
  by (simp add: main_def parse_example_map frame_59000 frame_0 card_seconds_def frame_card_def
      lane_example_config)

text \<open>
  Claim C4, amended to the closed interval: when the simulated value before a frame is
  absent or lies between 0 and 60, both included, the nominal frame interval is a finite
  non-negative float and the frame's now counter is not behind the stored one, then the
  simulated value after the frame is absent or lies between 0 and 60: the reset takes the
  resolver's estimate, which is in that range, and the decrement subtracts a non-negative
  delta and clamps at 0.
\<close>

theorem process_frame_keeps_range:
  assumes "in_range (simulated_rem st)" and "nominal_interval (rate cfg)"
    and "parse_spat ts_paths_rate_sync r = Inr (iid, now_val, states)"
    and "clock_not_behind (last_ts st) now_val"
  shows "in_range (simulated_rem (fst (process_frame cfg a b my_sg st (Some r))))"
proof (cases "states = []")
  case True
  then have "process_frame cfg a b my_sg st (Some r) = (st, [], None)"
    using assms(3) by (simp add: process_frame_def)
  then show ?thesis using assms(1) by simp
next
  case False
  show ?thesis
  proof (cases "scan_states my_sg (rate cfg) now_val st states")
    case (Inl e)
    then show ?thesis using assms(1,3) False by (simp add: process_frame_raise)
  next
    case (Inr p)
    obtain ev st1 where p: "p = (ev, st1)" by (cases p)
    have s: "simulated_rem (fst (process_frame cfg a b my_sg st (Some r))) = simulated_rem st1"
      using process_frame_state [OF assms(3) False] Inr p by simp
    from scan_states_result [of my_sg "rate cfg" now_val st states ev st1] Inr p
    have "st1 = st \<or> (\<exists>ob. smooth_step (rate cfg) now_val st ob = Inr st1)" by auto
    then have "in_range (simulated_rem st1)"
      using assms(1,2,4) smooth_step_in_range by blast
    then show ?thesis using s by simp
  qed
qed

theorem process_frame_keeps_range_witness:
  "in_range (simulated_rem running_state) \<and> nominal_interval (rate example_config) \<and>
   parse_spat ts_paths_rate_sync (stop_frame ''59500'' ''2'' ''50'') =
     Inr (None, Some 59500, [\<lparr>sg = 2, event = Some ''stop-And-Remain'', minEndRaw = Some 50\<rparr>]) \<and>
   clock_not_behind (last_ts running_state) (Some 59500) \<and>
   in_range (simulated_rem (fst (process_frame example_config (Some ''12'') None (Some 2) running_state
       (Some (stop_frame ''59500'' ''2'' ''50'')))))"
proof -
  have h1: "in_range (simulated_rem running_state)"
    by (simp add: running_state_def in_range_def)
  have h4: "clock_not_behind (last_ts running_state) (Some 59500)"
    by (simp add: running_state_def clock_not_behind_def)
  show ?thesis
    using process_frame_keeps_range [OF h1 rate_example_config parse_stop_frame_59500 h4]
      h1 rate_example_config parse_stop_frame_59500 h4 by blast
qed

text \<open>
  The range is not half-open: the frame with \<open>now = 60100\<close> and phase end 1 resets the
  simulated value to exactly 60.0.
\<close>

theorem process_frame_reset_reaches_60:
  "simulated_rem (fst (process_frame example_config (Some ''12'') None (Some 2) initial_state
       (Some (stop_frame ''60100'' ''2'' ''1'')))) = Some (Fin 60) \<and> \<not> (60::rat) < 60"
  by (simp add: process_frame_def parse_stop_frame_60100 smooth_step_def detect_60100_1
      initial_state_def frame_delay_def example_config_def sleep_tenth)

text \<open>
  Claim C5: when the frame's observation for the observer's signal group (the first one,
  if there are several) has a \<open>phase_end_raw\<close> different from the stored one, or no
  simulated value is stored, the simulated value after the frame is exactly the resolver's
  estimate for that frame, whatever the state before.
\<close>

theorem process_frame_reset:
  assumes "parse_spat ts_paths_rate_sync r = Inr (iid, now_val, states)"
    and "observer_observation my_sg states = Some ob"
    and "minEndRaw ob \<noteq> last_min_end st \<or> simulated_rem st = None"
    and "detect_unit_and_delta now_val (minEndRaw ob) = Inr rem_secs"
  shows "simulated_rem (fst (process_frame cfg a b my_sg st (Some r))) = rem_secs"
proof -
  have ne: "states \<noteq> []" using assms(2) by (auto simp: observer_observation_def)
  have step: "smooth_step (rate cfg) now_val st ob =
          Inr (st\<lparr>simulated_rem := rem_secs, last_min_end := minEndRaw ob\<rparr>)"
    using assms(3,4) by (auto simp: smooth_step_def split: option.splits)
  have "scan_states my_sg (rate cfg) now_val st states =
          Inr (event ob, st\<lparr>simulated_rem := rem_secs, last_min_end := minEndRaw ob\<rparr>)"
    using scan_states_found [OF assms(2)] step by simp
  from process_frame_state [OF assms(1) ne this] show ?thesis by simp
qed

theorem process_frame_reset_witness:
  "parse_spat ts_paths_rate_sync (stop_frame ''59500'' ''2'' ''70'') =
     Inr (None, Some 59500, [\<lparr>sg = 2, event = Some ''stop-And-Remain'', minEndRaw = Some 70\<rparr>]) \<and>
   observer_observation (Some 2) [\<lparr>sg = 2, event = Some ''stop-And-Remain'', minEndRaw = Some 70\<rparr>] =
     Some \<lparr>sg = 2, event = Some ''stop-And-Remain'', minEndRaw = Some 70\<rparr> \<and>
   Some 70 \<noteq> last_min_end running_state \<and>
   detect_unit_and_delta (Some 59500) (Some 70) = Inr (Some (Fin (15 / 2))) \<and>
   simulated_rem (fst (process_frame example_config (Some ''12'') None (Some 2) running_state
       (Some (stop_frame ''59500'' ''2'' ''70'')))) = Some (Fin (15 / 2))"
proof -
  let ?ob = "\<lparr>sg = 2, event = Some ''stop-And-Remain'', minEndRaw = Some 70\<rparr>"
  have h2: "observer_observation (Some 2) [?ob] = Some ?ob"
    by (simp add: observer_observation_def)
  have h3: "Some 70 \<noteq> last_min_end running_state"
    by (simp add: running_state_def)
  then have h3': "minEndRaw ?ob \<noteq> last_min_end running_state \<or> simulated_rem running_state = None"
    by simp
  have h4: "detect_unit_and_delta (Some 59500) (minEndRaw ?ob) = Inr (Some (Fin (15 / 2)))"
    using detect_59500_70 by simp
  show ?thesis
    using process_frame_reset [OF parse_stop_frame_59500_70 h2 h3' h4]
      parse_stop_frame_59500_70 h2 h3 detect_59500_70 by blast
qed

text \<open>
  Claim C6, amended: at the end of a processed frame the stored now counter is that
  frame's now counter; the stored \<open>phase_end_raw\<close> is that of the frame's observation for
  the observer's signal group when the frame has one, whichever branch ran, and is left as
  it was when the frame has none.
\<close>

theorem process_frame_updates_previous:
  assumes "parse_spat ts_paths_rate_sync r = Inr (iid, now_val, states)" and "states \<noteq> []"
    and "process_frame cfg a b my_sg st (Some r) = (st', out, None)"
  shows "last_ts st' = now_val \<and>
         last_min_end st' =
           (case observer_observation my_sg states of
              None \<Rightarrow> last_min_end st
            | Some ob \<Rightarrow> minEndRaw ob)"
proof (cases "scan_states my_sg (rate cfg) now_val st states")
  case (Inl e)
  then show ?thesis using assms by (simp add: process_frame_raise)
next
  case (Inr p)
  obtain ev st1 where p: "p = (ev, st1)" by (cases p)
  have sc: "scan_states my_sg (rate cfg) now_val st states = Inr (ev, st1)"
    using Inr p by simp
  have st': "st' = st1\<lparr>last_ts := now_val, shown := shown st1 + 1\<rparr>"
    using process_frame_shown_cases [OF assms(1,2) sc assms(3)] by auto
  from scan_states_result [of my_sg "rate cfg" now_val st states ev st1] Inr p
  have "(observer_observation my_sg states = None \<and> st1 = st) \<or>
        (\<exists>ob. observer_observation my_sg states = Some ob \<and> smooth_step (rate cfg) now_val st ob = Inr st1)"
    by auto
  then show ?thesis
  proof
    assume "observer_observation my_sg states = None \<and> st1 = st"
    then show ?thesis using st' by simp
  next
    assume "\<exists>ob. observer_observation my_sg states = Some ob \<and> smooth_step (rate cfg) now_val st ob = Inr st1"
    then obtain ob where ob: "observer_observation my_sg states = Some ob"
      and "smooth_step (rate cfg) now_val st ob = Inr st1" by blast
    then have "last_min_end st1 = minEndRaw ob" using smooth_step_fields by blast
    then show ?thesis using st' ob by simp
  qed
qed

theorem process_frame_updates_previous_witness:
  "parse_spat ts_paths_rate_sync (stop_frame ''0'' ''2'' ''50'') =
     Inr (None, Some 0, [\<lparr>sg = 2, event = Some ''stop-And-Remain'', minEndRaw = Some 50\<rparr>]) \<and>
   [\<lparr>sg = 2, event = Some ''stop-And-Remain'', minEndRaw = Some 50\<rparr>] \<noteq> [] \<and>
   process_frame example_config (Some ''12'') None (Some 2) running_state (Some (stop_frame ''0'' ''2'' ''50'')) =
     (\<lparr>last_min_end = Some 50, simulated_rem = Some (Fin 5906), last_ts = Some 0, shown = 2\<rparr>,
      [DrawCard (frame_card example_config (Some ''12'') None (Some 2) None (Some ''stop-And-Remain'') (Some (Fin 5906))),
       Sleep (rate example_config)], None) \<and>
   last_ts \<lparr>last_min_end = Some 50, simulated_rem = Some (Fin 5906), last_ts = Some 0, shown = 2\<rparr> = Some 0 \<and>
   last_min_end \<lparr>last_min_end = Some 50, simulated_rem = Some (Fin 5906), last_ts = Some 0, shown = 2\<rparr> =
     (case observer_observation (Some 2) [\<lparr>sg = 2, event = Some ''stop-And-Remain'', minEndRaw = Some 50\<rparr>] of
        None \<Rightarrow> last_min_end running_state
      | Some ob \<Rightarrow> minEndRaw ob)"
proof -
  have h2: "[\<lparr>sg = 2, event = Some ''stop-And-Remain'', minEndRaw = Some 50\<rparr>] \<noteq> []" by simp
  show ?thesis
    using process_frame_updates_previous [OF parse_stop_frame_0 h2 frame_0]
      parse_stop_frame_0 h2 frame_0 by blast
qed

text \<open>
  A processed frame without an observation for the observer's signal group leaves the
  stored \<open>phase_end_raw\<close> of an earlier frame in place: after a frame for signal group 2
  with phase end 50 and a frame that only has signal group 3, the stored value is still 50
  and the stored now counter is the second frame's.
\<close>

theorem stale_phase_end_after_other_frame:
  "fst (frame_loop example_config (Some ''12'') None (Some 2) initial_state
          [Some (stop_frame ''59000'' ''2'' ''50''), Some (stop_frame ''59100'' ''3'' ''77'')]) =
     \<lparr>last_min_end = Some 50, simulated_rem = Some (Fin 6), last_ts = Some 59100, shown = 2\<rparr> \<and>
   parse_spat ts_paths_rate_sync (stop_frame ''59100'' ''3'' ''77'') =
     Inr (None, Some 59100, [\<lparr>sg = 3, event = Some ''stop-And-Remain'', minEndRaw = Some 77\<rparr>]) \<and>
   observer_observation (Some 2) [\<lparr>sg = 3, event = Some ''stop-And-Remain'', minEndRaw = Some 77\<rparr>] = None"
  by (simp add: frame_59000 frame_other parse_other_frame observer_observation_def)

section \<open>The geometry decoder (claim C7)\<close>




section \<open>The end of the run (claim C8)\<close>

text \<open>
  Claim C8 says the report \<^verbatim>\<open>SPaT frames found, but none referenced your lane's signal group.\<close>
  is printed exactly when no processed frame has an observation for the observer's signal
  group. Both scripts print it when \<^verbatim>\<open>shown == 0\<close>, and \<^verbatim>\<open>shown\<close> counts every processed
  frame. With lane 5 under signal group 2 and one frame that only has signal group 3, a
  card is drawn and no report is printed.
\<close>

theorem no_report_when_only_other_groups:
  "main example_config [Some example_map] [Some (stop_frame ''59100'' ''3'' ''77'')] =
     ([DrawCard (frame_card example_config (Some ''12'') None (Some 2) None None None),
       Sleep (rate example_config)], None) \<and>
   offline_main example_config [Some example_map] [Some (stop_frame ''59100'' ''3'' ''77'')] =
     ([DrawCard \<lparr>approach_name = None, inter_id = Some ''12'', lane_id = 5, card_sg = Some 2,
                 cur_color = ''red'', secs_remaining = None, clear_enabled = True\<rparr>,
       Sleep (py_max (Fin (round_double (1 / 20))) (rate example_config))], None) \<and>
   parse_spat ts_paths_rate_sync (stop_frame ''59100'' ''3'' ''77'') =
     Inr (None, Some 59100, [\<lparr>sg = 3, event = Some ''stop-And-Remain'', minEndRaw = Some 77\<rparr>]) \<and>
   parse_spat ts_paths_offline (stop_frame ''59100'' ''3'' ''77'') =
     Inr (None, Some 59100, [\<lparr>sg = 3, event = Some ''stop-And-Remain'', minEndRaw = Some 77\<rparr>]) \<and>
   observer_observation (Some 2) [\<lparr>sg = 3, event = Some ''stop-And-Remain'', minEndRaw = Some 77\<rparr>] = None"
  by (simp add: main_def offline_main_def parse_example_map lane_example_config frame_other_initial
      offline_frame_other parse_other_frame parse_other_frame_offline observer_observation_def)

section \<open>Decoded counters (claim C9)\<close>

text \<open>
  Claim C9, amended: the now counter and every phase-end counter that \<^verbatim>\<open>parse_spat\<close>
  returns are non-negative, and so are the now counter and the phase-end counter the
  frame loop stores; the resolver and the delta of the countdown therefore never see a
  negative counter.
\<close>

theorem decoded_counters_nonneg:
  assumes "parse_spat ts_paths r = Inr (iid, now_val, states)"
    and "frame_loop cfg a b my_sg initial_state blobs = (st, out, err)"
  shows "nonneg_opt now_val \<and> list_all (\<lambda>ob. nonneg_opt (minEndRaw ob)) states \<and>
         nonneg_opt (last_ts st) \<and> nonneg_opt (last_min_end st)"
proof -
  have "nonneg_opt (last_ts initial_state) \<and> nonneg_opt (last_min_end initial_state)"
    by (simp add: initial_state_def nonneg_opt_def)
  then have "nonneg_opt (last_ts st) \<and> nonneg_opt (last_min_end st)"
    using assms(2) by (rule frame_loop_counters)
  then show ?thesis using parse_spat_nonneg [OF assms(1)] by (simp add: list_all_iff)
qed

theorem decoded_counters_nonneg_witness:
  "parse_spat ts_paths_rate_sync (stop_frame ''59000'' ''2'' ''50'') =
     Inr (None, Some 59000, [\<lparr>sg = 2, event = Some ''stop-And-Remain'', minEndRaw = Some 50\<rparr>]) \<and>
   frame_loop example_config (Some ''12'') None (Some 2) initial_state [Some (stop_frame ''59000'' ''2'' ''50'')] =
     (running_state,
      [DrawCard (frame_card example_config (Some ''12'') None (Some 2) None (Some ''stop-And-Remain'') (Some (Fin 6))),
       Sleep (rate example_config)], None) \<and>
   nonneg_opt (Some 59000) \<and>
   list_all (\<lambda>ob. nonneg_opt (minEndRaw ob)) [\<lparr>sg = 2, event = Some ''stop-And-Remain'', minEndRaw = Some 50\<rparr>] \<and>
   nonneg_opt (last_ts running_state) \<and> nonneg_opt (last_min_end running_state)"
proof -
  have h2: "frame_loop example_config (Some ''12'') None (Some 2) initial_state [Some (stop_frame ''59000'' ''2'' ''50'')] =
     (running_state,
      [DrawCard (frame_card example_config (Some ''12'') None (Some 2) None (Some ''stop-And-Remain'') (Some (Fin 6))),
       Sleep (rate example_config)], None)"
    by (simp add: frame_59000)
  show ?thesis
    using decoded_counters_nonneg [OF parse_stop_frame_59000 h2] parse_stop_frame_59000 h2 by blast
qed

text \<open>
  Signal groups and lane identifiers are read with \<^verbatim>\<open>int\<close>, which accepts a sign: the
  signal group \<open>-3\<close> of a frame and the lane \<open>-7\<close> with signal group \<open>-2\<close> of a map are
  decoded as negative numbers.
\<close>

theorem negative_signal_group_and_lane:
  "parse_spat ts_paths_rate_sync (stop_frame ''58000'' ''-3'' ''50'') =
     Inr (None, Some 58000, [\<lparr>sg = - 3, event = Some ''stop-And-Remain'', minEndRaw = Some 50\<rparr>]) \<and>
   snd (snd (parse_map (map_data [generic_lane ''-7'' [connection ''-2'']]))) = [(- 7, Some (- 2))] \<and>
   \<not> (0::int) \<le> - 3 \<and> \<not> (0::int) \<le> - 7"
  by (simp add: parse_negative_frame parse_negative_map)

section \<open>An observer lane without signal group (claim C10)\<close>

text \<open>
  Claim C10, amended. When the observer's lane is in the decoded geometry with an absent
  signal group, neither script stops with the lane-not-found message, and every card
  they draw is red without seconds, because no observation matches an absent signal
  group. Every processed block that the loop arrives at, the blocks before it having
  raised nothing, is presented: its card is drawn right after what those blocks showed,
  before the pause of the block is computed and taken.
\<close>

theorem unmapped_lane_shows_red:
  assumes "parse_map md = (iid, iname, lanes)" and "map_of lanes (lane cfg) = Some None"
  shows "list_all red_without_seconds (fst (main cfg (Some md # mbs) spat_blocks)) \<and>
         (\<forall>l ks. Print (LaneNotFound l ks) \<notin> set (fst (main cfg (Some md # mbs) spat_blocks))) \<and>
         (\<forall>pre blob post st out_pre.
            spat_blocks = pre @ blob # post \<and>
            frame_loop cfg iid iname None initial_state pre = (st, out_pre, None) \<and>
            processed ts_paths_rate_sync blob \<longrightarrow>
            (\<exists>c rest. fst (main cfg (Some md # mbs) spat_blocks) = out_pre @ DrawCard c # rest \<and>
               cur_color c = ''red'' \<and> secs_remaining c = None)) \<and>
         list_all red_without_seconds (fst (offline_main cfg (Some md # mbs) spat_blocks)) \<and>
         (\<forall>l ks. Print (LaneNotFound l ks) \<notin> set (fst (offline_main cfg (Some md # mbs) spat_blocks))) \<and>
         (\<forall>pre blob post n out_pre.
            spat_blocks = pre @ blob # post \<and>
            offline_frame_loop cfg iid iname None 0 pre = (n, out_pre, None) \<and>
            processed ts_paths_offline blob \<longrightarrow>
            (\<exists>c rest. fst (offline_main cfg (Some md # mbs) spat_blocks) = out_pre @ DrawCard c # rest \<and>
               cur_color c = ''red'' \<and> secs_remaining c = None))"
proof -
  note m = main_unmapped [OF assms, of mbs spat_blocks]
  note om = offline_main_unmapped [OF assms, of mbs spat_blocks]
  have p: "\<exists>c rest. fst (main cfg (Some md # mbs) spat_blocks) = out_pre @ DrawCard c # rest \<and>
               cur_color c = ''red'' \<and> secs_remaining c = None"
    if "spat_blocks = pre @ blob # post"
      and "frame_loop cfg iid iname None initial_state pre = (st, out_pre, None)"
      and "processed ts_paths_rate_sync blob" for pre blob post st out_pre
  proof -
    from main_unmapped_presented [OF assms that(2,3), of mbs post]
    obtain c rest where "fst (main cfg (Some md # mbs) (pre @ blob # post)) = out_pre @ DrawCard c # rest"
      by blast
    then have eq: "fst (main cfg (Some md # mbs) spat_blocks) = out_pre @ DrawCard c # rest"
      by (simp only: that(1))
    then have "red_without_seconds (DrawCard c)" using m by simp
    then show ?thesis using eq by (auto simp: red_without_seconds_def)
  qed
  have q: "\<exists>c rest. fst (offline_main cfg (Some md # mbs) spat_blocks) = out_pre @ DrawCard c # rest \<and>
               cur_color c = ''red'' \<and> secs_remaining c = None"
    if "spat_blocks = pre @ blob # post"
      and "offline_frame_loop cfg iid iname None 0 pre = (n, out_pre, None)"
      and "processed ts_paths_offline blob" for pre blob post n out_pre
  proof -
    from offline_main_unmapped_presented [OF assms that(2,3), of mbs post]
    obtain c rest where "fst (offline_main cfg (Some md # mbs) (pre @ blob # post)) = out_pre @ DrawCard c # rest"
      by blast
    then have eq: "fst (offline_main cfg (Some md # mbs) spat_blocks) = out_pre @ DrawCard c # rest"
      by (simp only: that(1))
    then have "red_without_seconds (DrawCard c)" using om by simp
    then show ?thesis using eq by (auto simp: red_without_seconds_def)
  qed
  from m om p q show ?thesis by blast
qed

theorem unmapped_lane_shows_red_witness:
  "parse_map example_map = (Some ''12'', None, [(5, Some 2), (9, None)]) \<and>
   map_of [(5, Some 2), (9, None)] (lane unmapped_config) = Some None \<and>
   list_all red_without_seconds
     (fst (main unmapped_config [Some example_map] [None, Some (stop_frame ''59000'' ''2'' ''50''), None])) \<and>
   (\<forall>l ks. Print (LaneNotFound l ks) \<notin>
      set (fst (main unmapped_config [Some example_map] [None, Some (stop_frame ''59000'' ''2'' ''50''), None]))) \<and>
   [None, Some (stop_frame ''59000'' ''2'' ''50''), None] = [None] @ Some (stop_frame ''59000'' ''2'' ''50'') # [None] \<and>
   frame_loop unmapped_config (Some ''12'') None None initial_state [None] = (initial_state, [], None) \<and>
   processed ts_paths_rate_sync (Some (stop_frame ''59000'' ''2'' ''50'')) \<and>
   (\<exists>c rest. fst (main unmapped_config [Some example_map] [None, Some (stop_frame ''59000'' ''2'' ''50''), None]) =
        [] @ DrawCard c # rest \<and> cur_color c = ''red'' \<and> secs_remaining c = None) \<and>
   list_all red_without_seconds
     (fst (offline_main unmapped_config [Some example_map] [None, Some (stop_frame ''59000'' ''2'' ''50''), None])) \<and>
   (\<forall>l ks. Print (LaneNotFound l ks) \<notin>
      set (fst (offline_main unmapped_config [Some example_map] [None, Some (stop_frame ''59000'' ''2'' ''50''), None]))) \<and>
   offline_frame_loop unmapped_config (Some ''12'') None None 0 [None] = (0, [], None) \<and>
   processed ts_paths_offline (Some (stop_frame ''59000'' ''2'' ''50'')) \<and>
   (\<exists>c rest. fst (offline_main unmapped_config [Some example_map] [None, Some (stop_frame ''59000'' ''2'' ''50''), None]) =
        [] @ DrawCard c # rest \<and> cur_color c = ''red'' \<and> secs_remaining c = None)"
proof -
  have h2: "map_of [(5, Some 2), (9, None)] (lane unmapped_config) = Some None"
    by (simp add: unmapped_config_def)
  have s: "[None, Some (stop_frame ''59000'' ''2'' ''50''), None] =
      [None] @ Some (stop_frame ''59000'' ''2'' ''50'') # [None]"
    by simp
  have l1: "frame_loop unmapped_config (Some ''12'') None None initial_state [None] = (initial_state, [], None)"
    by (simp add: process_frame_def)
  have l2: "offline_frame_loop unmapped_config (Some ''12'') None None 0 [None] = (0, [], None)"
    by (simp add: offline_process_frame_def)
  have p1: "processed ts_paths_rate_sync (Some (stop_frame ''59000'' ''2'' ''50''))"
    by (simp add: processed_def parse_stop_frame_59000)
  have p2: "processed ts_paths_offline (Some (stop_frame ''59000'' ''2'' ''50''))"
    by (simp add: processed_def parse_stop_frame_59000_offline)
  note t = unmapped_lane_shows_red [OF parse_example_map h2,
      of "[]" "[None, Some (stop_frame ''59000'' ''2'' ''50''), None]"]
  from t s l1 p1 have c1:
    "\<exists>c rest. fst (main unmapped_config [Some example_map] [None, Some (stop_frame ''59000'' ''2'' ''50''), None]) =
        [] @ DrawCard c # rest \<and> cur_color c = ''red'' \<and> secs_remaining c = None"
    by blast
  from t s l2 p2 have c2:
    "\<exists>c rest. fst (offline_main unmapped_config [Some example_map] [None, Some (stop_frame ''59000'' ''2'' ''50''), None]) =
        [] @ DrawCard c # rest \<and> cur_color c = ''red'' \<and> secs_remaining c = None"
    by blast
  from t c1 c2 parse_example_map h2 s l1 l2 p1 p2 show ?thesis by blast
qed

text \<open>
  A processed block is not presented when an earlier block has ended the run. With
  \<^verbatim>\<open>--sync-time\<close> the pause of a block is computed from \<^verbatim>\<open>(now_val - last_ts) / 100.0\<close>,
  which raises \<^verbatim>\<open>OverflowError\<close> when the difference is too large for a float: of three
  processed blocks with the now counters 0, \<open>10\<^sup>3\<^sup>0\<^sup>9\<close> and 100, the first two are drawn, red
  without seconds, and the third is not.
\<close>

theorem unmapped_run_ends_at_pacing_overflow:
  "main unmapped_sync_config [Some example_map]
     [Some (stop_frame ''0'' ''2'' ''50''), Some (stop_frame far_now ''2'' ''50''),
      Some (stop_frame ''100'' ''2'' ''50'')] =
     ([DrawCard (frame_card unmapped_sync_config (Some ''12'') None None None None None),
       Sleep (rate unmapped_sync_config),
       DrawCard (frame_card unmapped_sync_config (Some ''12'') None None None None None)],
      Some OverflowError) \<and>
   processed ts_paths_rate_sync (Some (stop_frame ''0'' ''2'' ''50'')) \<and>
   processed ts_paths_rate_sync (Some (stop_frame far_now ''2'' ''50'')) \<and>
   processed ts_paths_rate_sync (Some (stop_frame ''100'' ''2'' ''50''))"
  by (simp add: main_def parse_example_map lane_unmapped_sync_config frame_unmapped_0 frame_unmapped_far
      processed_def parse_stop_frame_0 parse_stop_frame_far parse_stop_frame_100)

end
